theory Spec2Isabelle
  imports Main "HOL-Library.Word"
begin

section \<open>Go values as the package sees them through reflection\<close>

text \<open>
  A Go string is a sequence of bytes: \<open>string\<close>. A \<open>url.Values\<close> is a
  \<open>map[string][]string\<close>: a partial map from keys to lists of strings, where a key
  bound to the empty list differs from an absent key. Reading an absent key yields the
  nil slice, written \<open>Get\<close>; \<open>Add\<close> is \<open>url.Values.Add\<close>
  (\<open>v[key] = append(v[key], value)\<close>).
\<close>

type_synonym rune = nat
type_synonym Values = "string \<rightharpoonup> string list"

definition Get :: "Values \<Rightarrow> string \<Rightarrow> string list" where
  "Get v key = (case v key of None \<Rightarrow> [] | Some vs \<Rightarrow> vs)"

definition Add :: "Values \<Rightarrow> string \<Rightarrow> string \<Rightarrow> Values" where
  "Add v key s = v(key \<mapsto> Get v key @ [s])"

text \<open>
  \<open>reflect.Kind\<close>, as far as the package's switches tell kinds apart; every kind the
  switches send to \<open>default\<close> (maps, channels, functions, interfaces, arrays, complex
  numbers) is \<open>reflect_Other\<close>.
\<close>

datatype kind =
    reflect_Bool
  | reflect_Int | reflect_Int8 | reflect_Int16 | reflect_Int32 | reflect_Int64
  | reflect_Uint | reflect_Uint8 | reflect_Uint16 | reflect_Uint32 | reflect_Uint64
  | reflect_Float32 | reflect_Float64
  | reflect_String
  | reflect_Ptr | reflect_Slice | reflect_Struct
  | reflect_Other

text \<open>
  Errors are values. \<open>NumError\<close> is \<open>strconv.NumError\<close> (function, input, cause),
  \<open>Unsupported\<close> the \<open>fmt.Errorf("unsupported type: %s", kind)\<close> of \<open>parse\<close>,
  \<open>UserError\<close> whatever a user's \<open>DecodeQuery\<close> or \<open>EncodeValues\<close> returns, and
  \<open>Joined\<close> the result of \<open>errors.Join\<close>. A Go panic is the other way a call can
  end: \<open>Panic\<close>, against \<open>Return\<close>.
\<close>

datatype numerr = ErrSyntax | ErrRange

datatype error =
    NumError string string numerr
  | Unsupported kind
  | UserError string
  | Joined "error list"

datatype 'a outcome = Panic string | Return 'a

definition Join :: "error list \<Rightarrow> error option" where
  "Join errs = (if errs = [] then None else Some (Joined errs))"

text \<open>
  \<open>reflect.Type\<close> and \<open>reflect.StructField\<close>. \<open>Named n t\<close> is a defined type
  \<open>type n t\<close>; its methods are found under \<open>n\<close>. A field's \<open>Name\<close> is kept as its
  code points (\<open>[]rune(field.Name)\<close>), its \<open>Tag\<close> as the key/value pairs that
  \<open>StructTag.Lookup\<close> reads; \<open>IsExported\<close> is reflect's \<open>PkgPath == ""\<close>.
  Embedded fields (and with them method promotion) are not modelled.
\<close>

datatype rtype =
    Basic kind
  | PointerTo rtype
  | SliceOf rtype
  | StructOf "(rune list \<times> string \<times> (string \<times> string) list \<times> rtype) list"
  | Named string rtype

type_synonym StructField = "rune list \<times> string \<times> (string \<times> string) list \<times> rtype"

definition Name :: "StructField \<Rightarrow> rune list" where
  "Name f = fst f"

definition PkgPath :: "StructField \<Rightarrow> string" where
  "PkgPath f = fst (snd f)"

definition Tag :: "StructField \<Rightarrow> (string \<times> string) list" where
  "Tag f = fst (snd (snd f))"

definition Type :: "StructField \<Rightarrow> rtype" where
  "Type f = snd (snd (snd f))"

definition IsExported :: "StructField \<Rightarrow> bool" where
  "IsExported f = (PkgPath f = [])"

definition Lookup :: "(string \<times> string) list \<Rightarrow> string \<Rightarrow> string option" where
  "Lookup tag key = map_of tag key"

fun Kind :: "rtype \<Rightarrow> kind" where
  "Kind (Basic k) = k"
| "Kind (PointerTo t) = reflect_Ptr"
| "Kind (SliceOf t) = reflect_Slice"
| "Kind (StructOf fs) = reflect_Struct"
| "Kind (Named n t) = Kind t"

fun Elem :: "rtype \<Rightarrow> rtype outcome" where
  "Elem (PointerTo t) = Return t"
| "Elem (SliceOf t) = Return t"
| "Elem (Named n t) = Elem t"
| "Elem t = Panic ''reflect: Elem of invalid type''"

text \<open>
  The data behind a \<open>reflect.Value\<close>. The constructor is the value's kind as the encoder's
  switch groups them: \<open>VInt\<close> for \<open>Int, Int8, Int16, Int32, Int64\<close> (read by
  \<open>Value.Int\<close>), \<open>VUint\<close> for the unsigned kinds (\<open>Value.Uint\<close>). A float is its IEEE bit
  pattern. \<open>VPtr None\<close> is the nil pointer, \<open>VSlice None\<close> the nil slice; \<open>VOther z\<close> is a
  value of a kind the package ignores, \<open>z\<close> telling whether it is its type's zero value.
  Pointers own their referent: aliasing between fields is not modelled.
\<close>

datatype val =
    VBool bool
  | VInt int
  | VUint nat
  | VFloat32 "32 word"
  | VFloat64 "64 word"
  | VString string
  | VPtr "val option"
  | VSlice "val list option"
  | VStruct "val list"
  | VOther bool

text \<open>
  \<open>reflect.Value.IsZero\<close>. For a float it is \<open>v.Float() == 0\<close>, which holds of both
  zeros: the bit pattern is that of +0 or that of -0, the sign bit alone.
\<close>

fun IsZero :: "val \<Rightarrow> bool" where
  "IsZero (VBool b) = (\<not> b)"
| "IsZero (VInt i) = (i = 0)"
| "IsZero (VUint u) = (u = 0)"
| "IsZero (VFloat32 w) = (w = 0 \<or> w = 2 ^ 31)"
| "IsZero (VFloat64 w) = (w = 0 \<or> w = 2 ^ 63)"
| "IsZero (VString s) = (s = [])"
| "IsZero (VPtr p) = (p = None)"
| "IsZero (VSlice xs) = (xs = None)"
| "IsZero (VStruct xs) = list_all IsZero xs"
| "IsZero (VOther z) = z"

text \<open>\<open>reflect.Zero\<close>: the zero value of a type, as \<open>reflect.New\<close> allocates it.\<close>

fun Zero :: "rtype \<Rightarrow> val" where
  "Zero (Basic k) =
     (if k = reflect_Bool then VBool False
      else if k \<in> {reflect_Int, reflect_Int8, reflect_Int16, reflect_Int32, reflect_Int64} then VInt 0
      else if k \<in> {reflect_Uint, reflect_Uint8, reflect_Uint16, reflect_Uint32, reflect_Uint64} then VUint 0
      else if k = reflect_Float32 then VFloat32 0
      else if k = reflect_Float64 then VFloat64 0
      else if k = reflect_String then VString []
      else VOther True)"
| "Zero (PointerTo t) = VPtr None"
| "Zero (SliceOf t) = VSlice None"
| "Zero (StructOf fs) = VStruct (map (\<lambda>f. Zero (snd (snd (snd f)))) fs)"
| "Zero (Named n t) = Zero t"

section \<open>What the package calls: strconv, strings, unicode, user methods\<close>

text \<open>
  \<open>strconv.IntSize\<close>: the width of \<open>int\<close> and \<open>uint\<close>, fixed here at the 64 bits of
  a 64-bit target.
\<close>

definition IntSize :: nat where
  "IntSize = 64"

definition is_digit :: "char \<Rightarrow> bool" where
  "is_digit c = (48 \<le> (of_char c :: nat) \<and> (of_char c :: nat) \<le> 57)"

definition digit_val :: "char \<Rightarrow> nat" where
  "digit_val c = of_char c - 48"

definition digit_char :: "nat \<Rightarrow> char" where
  "digit_char d = char_of (48 + d)"

text \<open>
  \<open>strconv.ParseUint(s, 10, bitSize)\<close>: the digit loop with its range check against
  \<open>maxVal = 1<<bitSize - 1\<close>. Go tests \<open>n >= cutoff\<close>, then \<open>n1 < n || n1 > maxVal\<close>
  on 64-bit arithmetic; on unbounded naturals the three tests are \<open>n * 10 + d > maxVal\<close>.
\<close>

fun ParseUint_loop :: "nat \<Rightarrow> nat \<Rightarrow> string \<Rightarrow> numerr + nat" where
  "ParseUint_loop maxVal n [] = Inr n"
| "ParseUint_loop maxVal n (c # cs) =
     (if \<not> is_digit c then Inl ErrSyntax
      else if n * 10 + digit_val c > maxVal then Inl ErrRange
      else ParseUint_loop maxVal (n * 10 + digit_val c) cs)"

definition ParseUint :: "string \<Rightarrow> nat \<Rightarrow> error + nat" where
  "ParseUint s bitSize =
     (if s = [] then Inl (NumError ''ParseUint'' s ErrSyntax)
      else case ParseUint_loop (2 ^ (if bitSize = 0 then IntSize else bitSize) - 1) 0 s of
             Inl e \<Rightarrow> Inl (NumError ''ParseUint'' s e)
           | Inr n \<Rightarrow> Inr n)"

text \<open>
  \<open>strconv.ParseInt(s, 10, bitSize)\<close>: an optional sign, then \<open>ParseUint\<close> on the rest,
  then the signed range check against \<open>cutoff = 1 << (bitSize-1)\<close>. A range error of
  \<open>ParseUint\<close> leaves \<open>un = maxVal\<close>, which the signed check rejects as well.
\<close>

definition ParseInt :: "string \<Rightarrow> nat \<Rightarrow> error + int" where
  "ParseInt s bitSize =
     (case s of
        [] \<Rightarrow> Inl (NumError ''ParseInt'' s ErrSyntax)
      | c # cs \<Rightarrow>
          (let neg = (c = CHR ''-'');
               body = (if c = CHR ''+'' \<or> c = CHR ''-'' then cs else s);
               cutoff = (2::nat) ^ ((if bitSize = 0 then IntSize else bitSize) - 1)
           in case ParseUint body bitSize of
                Inl (NumError f n ErrSyntax) \<Rightarrow> Inl (NumError ''ParseInt'' s ErrSyntax)
              | Inl e \<Rightarrow> Inl (NumError ''ParseInt'' s ErrRange)
              | Inr un \<Rightarrow>
                  if \<not> neg \<and> un \<ge> cutoff then Inl (NumError ''ParseInt'' s ErrRange)
                  else if neg \<and> un > cutoff then Inl (NumError ''ParseInt'' s ErrRange)
                  else Inr (if neg then - int un else int un)))"

text \<open>\<open>strconv.Atoi\<close> is \<open>ParseInt(s, 10, 0)\<close> with its own name in the error.\<close>

definition Atoi :: "string \<Rightarrow> error + int" where
  "Atoi s = (case ParseInt s 0 of
               Inl (NumError f n e) \<Rightarrow> Inl (NumError ''Atoi'' n e)
             | r \<Rightarrow> r)"

definition ParseBool :: "string \<Rightarrow> error + bool" where
  "ParseBool str =
     (if str \<in> set [''1'', ''t'', ''T'', ''TRUE'', ''true'', ''True''] then Inr True
      else if str \<in> set [''0'', ''f'', ''F'', ''FALSE'', ''false'', ''False''] then Inr False
      else Inl (NumError ''ParseBool'' str ErrSyntax))"

definition FormatBool :: "bool \<Rightarrow> string" where
  "FormatBool b = (if b then ''true'' else ''false'')"

fun FormatUint :: "nat \<Rightarrow> string" where
  "FormatUint n = (if n < 10 then [digit_char n] else FormatUint (n div 10) @ [digit_char (n mod 10)])"

definition FormatInt :: "int \<Rightarrow> string" where
  "FormatInt i = (if i < 0 then CHR ''-'' # FormatUint (nat (- i)) else FormatUint (nat i))"

text \<open>\<open>strings.Split(s, ",")\<close>, the separator given as its one byte.\<close>

fun Split :: "string \<Rightarrow> char \<Rightarrow> string list" where
  "Split [] sep = [[]]"
| "Split (c # cs) sep =
     (if c = sep then [] # Split cs sep
      else case Split cs sep of
             [] \<Rightarrow> [[c]]
           | x # xs \<Rightarrow> (c # x) # xs)"

text \<open>\<open>string(runes)\<close>: the UTF-8 encoding, U+FFFD for what is no valid code point.\<close>

definition utf8 :: "rune \<Rightarrow> string" where
  "utf8 r =
     (if r < 128 then [char_of r]
      else if r < 2048 then [char_of (192 + r div 64), char_of (128 + r mod 64)]
      else if (55296 \<le> r \<and> r < 57344) \<or> 1114111 < r then [char_of (239::nat), char_of (191::nat), char_of (189::nat)]
      else if r < 65536 then
        [char_of (224 + r div 4096), char_of (128 + r div 64 mod 64), char_of (128 + r mod 64)]
      else
        [char_of (240 + r div 262144), char_of (128 + r div 4096 mod 64),
         char_of (128 + r div 64 mod 64), char_of (128 + r mod 64)])"

definition string_of_runes :: "rune list \<Rightarrow> string" where
  "string_of_runes rs = concat (map utf8 rs)"

text \<open>
  The rest of what the package links against is a parameter of the model:
  \<open>unicode.ToLower\<close>; \<open>strconv.ParseFloat\<close> at 32 and at 64 bits (at 32 bits together
  with the exact conversion to \<open>float32\<close> that \<open>SetFloat\<close> performs) and
  \<open>strconv.FormatFloat(x, 'f', -1, bits)\<close>; and the methods users declare on their types:
  for a type name, the receiver kind and body of its \<open>EncodeValues\<close> and \<open>DecodeQuery\<close>.
  An \<open>EncodeValues\<close> body maps the receiver to its result; a \<open>DecodeQuery\<close> body maps the
  query and the receiver's referent to the updated referent and its result.
\<close>

datatype receiver = ByValue | ByPointer

record env =
  unicode_ToLower :: "rune \<Rightarrow> rune"
  ParseFloat32 :: "string \<Rightarrow> error + 32 word"
  ParseFloat64 :: "string \<Rightarrow> error + 64 word"
  FormatFloat32 :: "32 word \<Rightarrow> string"
  FormatFloat64 :: "64 word \<Rightarrow> string"
  EncodeValues :: "string \<Rightarrow> (receiver \<times> (val \<Rightarrow> (Values \<times> error option) outcome)) option"
  DecodeQuery :: "string \<Rightarrow> (receiver \<times> (Values \<Rightarrow> val \<Rightarrow> (val \<times> error option) outcome)) option"

section \<open>The tag helpers: getNameTags, getDefaultTags\<close>

text \<open>
  The key of a field is the first token of its \<open>query\<close> tag, or else its name with the
  first code point lower-cased; its defaults are the tokens of its \<open>default\<close> tag. The
  index \<open>fieldName[0]\<close> panics on an empty name, which no Go field has.
\<close>

definition TagName :: string where
  "TagName = ''query''"

definition TagDefault :: string where
  "TagDefault = ''default''"

definition getNameTags :: "env \<Rightarrow> StructField \<Rightarrow> string list outcome" where
  "getNameTags env field =
     (case Lookup (Tag field) TagName of
        None \<Rightarrow>
          (case Name field of
             [] \<Rightarrow> Panic ''index out of range [0] with length 0''
           | r # rs \<Rightarrow> Return [string_of_runes (unicode_ToLower env r # rs)])
      | Some tagv \<Rightarrow> Return (Split tagv (CHR '','')))"

definition getDefaultTags :: "StructField \<Rightarrow> string list" where
  "getDefaultTags field =
     (case Lookup (Tag field) TagDefault of
        None \<Rightarrow> []
      | Some tagv \<Rightarrow> Split tagv (CHR '',''))"

section \<open>encode.go\<close>

text \<open>
  The encoder as \<open>src/query/encode.go\<close> has it: \<open>Encode\<close> makes the map and calls
  \<open>encode\<close>, which asks \<open>encodeCustom\<close> and then walks the fields of the value itself.
  The functions take the map and return it as they leave it.
\<close>

text \<open>
  \<open>typ.Implements(encoderType)\<close>: the method set of a defined type \<open>T\<close> holds the
  methods declared with a value receiver, that of \<open>*T\<close> those declared with either
  receiver.
\<close>

fun Implements_Encoder :: "env \<Rightarrow> rtype \<Rightarrow> bool" where
  "Implements_Encoder env (Named n t) =
     (case EncodeValues env n of Some (ByValue, m) \<Rightarrow> True | _ \<Rightarrow> False)"
| "Implements_Encoder env (PointerTo (Named n t)) = (EncodeValues env n \<noteq> None)"
| "Implements_Encoder env t = False"

text \<open>
  \<open>val.Interface().(Encoder).EncodeValues()\<close>: the declared body runs on the receiver;
  a value method reached through a pointer runs on the referent, and panics on nil.
\<close>

fun call_EncodeValues :: "env \<Rightarrow> rtype \<Rightarrow> val \<Rightarrow> (Values \<times> error option) outcome" where
  "call_EncodeValues env (Named n t) x =
     (case EncodeValues env n of
        Some (ByValue, m) \<Rightarrow> m x
      | _ \<Rightarrow> Panic ''interface conversion: missing method EncodeValues'')"
| "call_EncodeValues env (PointerTo (Named n t)) x =
     (case EncodeValues env n of
        Some (ByPointer, m) \<Rightarrow> m x
      | Some (ByValue, m) \<Rightarrow>
          (case x of
             VPtr (Some r) \<Rightarrow> m r
           | _ \<Rightarrow> Panic ''value method called using nil pointer'')
      | None \<Rightarrow> Panic ''interface conversion: missing method EncodeValues'')"
| "call_EncodeValues env t x = Panic ''interface conversion: missing method EncodeValues''"

text \<open>The loop of \<open>encodeCustom\<close>: \<open>v[k] = append(v[k], values...)\<close> for every key of \<open>sub\<close>.\<close>

definition merge_Values :: "Values \<Rightarrow> Values \<Rightarrow> Values" where
  "merge_Values v sub = (\<lambda>k. case sub k of None \<Rightarrow> v k | Some vs \<Rightarrow> Some (Get v k @ vs))"

text \<open>
  \<open>encodeCustom\<close> returns whether the value was custom, with the error, and has merged
  into \<open>v\<close>. Whether the value is addressable or copied first, the receiver is a pointer
  to it: \<open>VPtr (Some x)\<close>.
\<close>

definition encodeCustom :: "env \<Rightarrow> Values \<Rightarrow> rtype \<Rightarrow> val \<Rightarrow> (bool \<times> Values \<times> error option) outcome" where
  "encodeCustom env v typ x =
     (let recv =
        (if \<not> Implements_Encoder env typ then
           (if Implements_Encoder env (PointerTo typ) then Some (PointerTo typ, VPtr (Some x))
            else None)
         else Some (typ, x))
      in case recv of
           None \<Rightarrow> Return (False, v, None)
         | Some (t, r) \<Rightarrow>
             (case call_EncodeValues env t r of
                Panic p \<Rightarrow> Panic p
              | Return (sub, err) \<Rightarrow> Return (True, merge_Values v sub, err)))"

definition getEncodingName :: "env \<Rightarrow> StructField \<Rightarrow> val \<Rightarrow> (string \<times> bool) outcome" where
  "getEncodingName env field x =
     (case getNameTags env field of
        Panic p \<Rightarrow> Panic p
      | Return names \<Rightarrow>
          (case names of
             [] \<Rightarrow> Panic ''index out of range [0] with length 0''
           | n0 # rest \<Rightarrow>
               if n0 = ''-'' then Return ([], True)
               else if length names > 1 \<and> names ! 1 = ''omitempty'' \<and> IsZero x then Return ([], True)
               else Return (n0, False)))"

text \<open>
  \<open>encodeSlice\<close> switches on the element kind and adds every element; an element of
  another kind adds nothing. The switch is a case on the element.
\<close>

fun encodeElem :: "env \<Rightarrow> val \<Rightarrow> string option" where
  "encodeElem env (VString s) = Some s"
| "encodeElem env (VBool b) = Some (FormatBool b)"
| "encodeElem env (VInt i) = Some (FormatInt i)"
| "encodeElem env (VUint u) = Some (FormatUint u)"
| "encodeElem env (VFloat32 w) = Some (FormatFloat32 env w)"
| "encodeElem env (VFloat64 w) = Some (FormatFloat64 env w)"
| "encodeElem env x = None"

fun encodeSlice :: "env \<Rightarrow> Values \<Rightarrow> val list \<Rightarrow> string \<Rightarrow> Values" where
  "encodeSlice env v [] key = v"
| "encodeSlice env v (x # xs) key =
     (case encodeElem env x of
        None \<Rightarrow> encodeSlice env v xs key
      | Some s \<Rightarrow> encodeSlice env (Add v key s) xs key)"

text \<open>
  \<open>encodeField\<close>: the switch on \<open>field.Kind()\<close> is a case on the value. The \<open>Elem\<close> of
  a nil pointer is the zero \<open>reflect.Value\<close>, of kind \<open>Invalid\<close>, which the recursive
  call sends to \<open>default\<close>.
\<close>

fun encodeField :: "env \<Rightarrow> Values \<Rightarrow> val \<Rightarrow> string \<Rightarrow> Values" where
  "encodeField env v (VString s) key = Add v key s"
| "encodeField env v (VBool b) key = Add v key (FormatBool b)"
| "encodeField env v (VFloat32 w) key = Add v key (FormatFloat32 env w)"
| "encodeField env v (VFloat64 w) key = Add v key (FormatFloat64 env w)"
| "encodeField env v (VInt i) key = Add v key (FormatInt i)"
| "encodeField env v (VUint u) key = Add v key (FormatUint u)"
| "encodeField env v (VPtr None) key = v"
| "encodeField env v (VPtr (Some r)) key = encodeField env v r key"
| "encodeField env v (VSlice None) key = v"
| "encodeField env v (VSlice (Some xs)) key = encodeSlice env v xs key"
| "encodeField env v (VStruct xs) key = v"
| "encodeField env v (VOther z) key = v"

text \<open>
  The loop of \<open>encode\<close> over the fields, each \<open>typ.Field(i)\<close> paired with its
  \<open>val.Field(i)\<close>. A custom field returns from the whole function.
\<close>

fun encodeFields :: "env \<Rightarrow> Values \<Rightarrow> (StructField \<times> val) list \<Rightarrow> (Values \<times> error option) outcome" where
  "encodeFields env v [] = Return (v, None)"
| "encodeFields env v ((fieldType, field) # rest) =
     (if \<not> IsExported fieldType then encodeFields env v rest
      else case encodeCustom env v (Type fieldType) field of
             Panic p \<Rightarrow> Panic p
           | Return (custom, v', err) \<Rightarrow>
               if custom then Return (v', err)
               else (case getEncodingName env fieldType field of
                       Panic p \<Rightarrow> Panic p
                     | Return (key, skip) \<Rightarrow>
                         if skip then encodeFields env v rest
                         else encodeFields env (encodeField env v field key) rest))"

fun Fields :: "rtype \<Rightarrow> StructField list" where
  "Fields (StructOf fs) = fs"
| "Fields (Named n t) = Fields t"
| "Fields t = []"

text \<open>
  \<open>encode\<close>: \<open>val.NumField()\<close> panics unless the value is a struct, so a pointer to a
  record and a value that is no record both end in a panic.
\<close>

definition encode :: "env \<Rightarrow> Values \<Rightarrow> rtype \<Rightarrow> val \<Rightarrow> (Values \<times> error option) outcome" where
  "encode env v typ x =
     (case encodeCustom env v typ x of
        Panic p \<Rightarrow> Panic p
      | Return (custom, v', err) \<Rightarrow>
          if custom then Return (v', err)
          else if Kind typ \<noteq> reflect_Struct then
            Panic ''reflect: call of reflect.Value.NumField on non-struct Value''
          else (case x of
                  VStruct xs \<Rightarrow> encodeFields env v (zip (Fields typ) xs)
                | _ \<Rightarrow> Panic ''reflect: call of reflect.Value.NumField on non-struct Value''))"

text \<open>
  \<open>Encode\<close>: \<open>obj\<close> is an \<open>any\<close>, \<open>None\<close> the nil interface, on which
  \<open>reflect.ValueOf\<close> gives the zero \<open>reflect.Value\<close> and \<open>val.Type()\<close> panics.
\<close>

definition Encode :: "env \<Rightarrow> (rtype \<times> val) option \<Rightarrow> (Values \<times> error option) outcome" where
  "Encode env obj =
     (case obj of
        None \<Rightarrow> Panic ''reflect: call of reflect.Value.Type on zero Value''
      | Some (typ, x) \<Rightarrow> encode env Map.empty typ x)"

section \<open>decode.go\<close>

text \<open>
  The decoder as \<open>src/query/decode.go\<close> has it. What the source mutates through
  reflection, the functions return: the value as the call leaves it, next to the error.
\<close>

fun Implements_Decoder :: "env \<Rightarrow> rtype \<Rightarrow> bool" where
  "Implements_Decoder env (Named n t) =
     (case DecodeQuery env n of Some (ByValue, m) \<Rightarrow> True | _ \<Rightarrow> False)"
| "Implements_Decoder env (PointerTo (Named n t)) = (DecodeQuery env n \<noteq> None)"
| "Implements_Decoder env t = False"

text \<open>
  \<open>val.Interface().(Decoder).DecodeQuery(q)\<close>, returning the receiver as the call
  leaves it: a pointer method updates the referent, a value method works on a copy.
\<close>

fun call_DecodeQuery :: "env \<Rightarrow> Values \<Rightarrow> rtype \<Rightarrow> val \<Rightarrow> (val \<times> error option) outcome" where
  "call_DecodeQuery env q (Named n t) x =
     (case DecodeQuery env n of
        Some (ByValue, m) \<Rightarrow>
          (case m q x of Panic p \<Rightarrow> Panic p | Return (x', err) \<Rightarrow> Return (x, err))
      | _ \<Rightarrow> Panic ''interface conversion: missing method DecodeQuery'')"
| "call_DecodeQuery env q (PointerTo (Named n t)) x =
     (case x of
        VPtr (Some r) \<Rightarrow>
          (case DecodeQuery env n of
             Some (ByPointer, m) \<Rightarrow>
               (case m q r of Panic p \<Rightarrow> Panic p | Return (r', err) \<Rightarrow> Return (VPtr (Some r'), err))
           | Some (ByValue, m) \<Rightarrow>
               (case m q r of Panic p \<Rightarrow> Panic p | Return (r', err) \<Rightarrow> Return (x, err))
           | None \<Rightarrow> Panic ''interface conversion: missing method DecodeQuery'')
      | _ \<Rightarrow> Panic ''invalid memory address or nil pointer dereference'')"
| "call_DecodeQuery env q t x = Panic ''interface conversion: missing method DecodeQuery''"

text \<open>
  \<open>decodeCustom\<close> returns whether the value was custom, the value as the call leaves
  it, and the error. \<open>canAddr\<close> is \<open>val.CanAddr()\<close>, which for the values the package
  reaches is also \<open>val.CanSet()\<close>. \<open>reflect.Indirect(val)\<close> is invalid exactly for a
  nil pointer; \<open>val.Set(created)\<close> panics on a value that cannot be set.
\<close>

definition decodeCustom :: "env \<Rightarrow> Values \<Rightarrow> bool \<Rightarrow> rtype \<Rightarrow> val \<Rightarrow> (bool \<times> val \<times> error option) outcome" where
  "decodeCustom env q canAddr typ x =
     (if \<not> Implements_Decoder env typ then
        (if canAddr \<and> Implements_Decoder env (PointerTo typ) then
           (case call_DecodeQuery env q (PointerTo typ) (VPtr (Some x)) of
              Panic p \<Rightarrow> Panic p
            | Return (VPtr (Some x'), err) \<Rightarrow> Return (True, x', err)
            | Return (y, err) \<Rightarrow> Return (True, x, err))
         else Return (False, x, None))
      else if x = VPtr None then
        (case Elem typ of
           Panic p \<Rightarrow> Panic p
         | Return et \<Rightarrow>
             if \<not> canAddr then Panic ''reflect: reflect.Value.Set using unaddressable value''
             else (case call_DecodeQuery env q typ (VPtr (Some (Zero et))) of
                     Panic p \<Rightarrow> Panic p
                   | Return (x', err) \<Rightarrow> Return (True, x', err)))
      else (case call_DecodeQuery env q typ x of
              Panic p \<Rightarrow> Panic p
            | Return (x', err) \<Rightarrow> Return (True, x', err)))"

definition getName :: "env \<Rightarrow> StructField \<Rightarrow> string outcome" where
  "getName env field =
     (case getNameTags env field of
        Panic p \<Rightarrow> Panic p
      | Return names \<Rightarrow>
          (case names of
             [] \<Rightarrow> Panic ''index out of range [0] with length 0''
           | n0 # rest \<Rightarrow> Return n0))"

definition getValues :: "env \<Rightarrow> Values \<Rightarrow> StructField \<Rightarrow> string list outcome" where
  "getValues env q field =
     (case getName env field of
        Panic p \<Rightarrow> Panic p
      | Return name \<Rightarrow>
          Return (if length (Get q name) = 0 then getDefaultTags field else Get q name))"

text \<open>
  \<open>typ.Bits()\<close> for the integer kinds, and the conversions \<open>intN(v)\<close>, \<open>uintN(v)\<close>
  that \<open>SetInt\<close>, \<open>SetUint\<close> and \<open>parseSlice\<close> apply: they keep the low bits.
\<close>

fun Bits :: "kind \<Rightarrow> nat" where
  "Bits reflect_Int = IntSize"
| "Bits reflect_Int8 = 8"
| "Bits reflect_Int16 = 16"
| "Bits reflect_Int32 = 32"
| "Bits reflect_Int64 = 64"
| "Bits reflect_Uint = IntSize"
| "Bits reflect_Uint8 = 8"
| "Bits reflect_Uint16 = 16"
| "Bits reflect_Uint32 = 32"
| "Bits reflect_Uint64 = 64"
| "Bits reflect_Float32 = 32"
| "Bits reflect_Float64 = 64"
| "Bits k = 0"

definition to_int :: "nat \<Rightarrow> int \<Rightarrow> int" where
  "to_int bits i = signed_take_bit (bits - 1) i"

definition to_uint :: "nat \<Rightarrow> nat \<Rightarrow> nat" where
  "to_uint bits u = take_bit bits u"

text \<open>
  The scalar cases of \<open>parseField\<close>, applied to \<open>values[0]\<close>: the parse at the width
  the case names, then what \<open>SetString\<close>, \<open>SetBool\<close>, \<open>SetFloat\<close>, \<open>SetInt\<close> or
  \<open>SetUint\<close> stores. \<open>None\<close> is the \<open>default\<close> case.
\<close>

definition parseScalar :: "env \<Rightarrow> kind \<Rightarrow> (string \<Rightarrow> error + val) option" where
  "parseScalar env k =
     (if k = reflect_String then Some (\<lambda>s. Inr (VString s))
      else if k = reflect_Bool then Some (\<lambda>s. map_sum id VBool (ParseBool s))
      else if k = reflect_Float64 then Some (\<lambda>s. map_sum id VFloat64 (ParseFloat64 env s))
      else if k = reflect_Float32 then Some (\<lambda>s. map_sum id VFloat32 (ParseFloat32 env s))
      else if k = reflect_Int \<or> k = reflect_Int64 then
        Some (\<lambda>s. map_sum id (\<lambda>v. VInt (to_int (Bits k) v)) (ParseInt s 64))
      else if k = reflect_Int32 then Some (\<lambda>s. map_sum id (\<lambda>v. VInt (to_int (Bits k) v)) (ParseInt s 32))
      else if k = reflect_Int16 then Some (\<lambda>s. map_sum id (\<lambda>v. VInt (to_int (Bits k) v)) (ParseInt s 16))
      else if k = reflect_Int8 then Some (\<lambda>s. map_sum id (\<lambda>v. VInt (to_int (Bits k) v)) (ParseInt s 8))
      else if k = reflect_Uint \<or> k = reflect_Uint64 then
        Some (\<lambda>s. map_sum id (\<lambda>v. VUint (to_uint (Bits k) v)) (ParseUint s 64))
      else if k = reflect_Uint32 then Some (\<lambda>s. map_sum id (\<lambda>v. VUint (to_uint (Bits k) v)) (ParseUint s 32))
      else if k = reflect_Uint16 then Some (\<lambda>s. map_sum id (\<lambda>v. VUint (to_uint (Bits k) v)) (ParseUint s 16))
      else if k = reflect_Uint8 then Some (\<lambda>s. map_sum id (\<lambda>v. VUint (to_uint (Bits k) v)) (ParseUint s 8))
      else None)"

text \<open>
  The element parsers of \<open>parseSlice\<close>: \<open>Atoi\<close> for \<open>int\<close>, the conversion to the
  element type written by the loop (\<open>parsed[i] = int32(v)\<close>).
\<close>

definition parseElem :: "env \<Rightarrow> kind \<Rightarrow> (string \<Rightarrow> error + val) option" where
  "parseElem env k =
     (if k = reflect_String then Some (\<lambda>s. Inr (VString s))
      else if k = reflect_Bool then Some (\<lambda>s. map_sum id VBool (ParseBool s))
      else if k = reflect_Float64 then Some (\<lambda>s. map_sum id VFloat64 (ParseFloat64 env s))
      else if k = reflect_Float32 then Some (\<lambda>s. map_sum id VFloat32 (ParseFloat32 env s))
      else if k = reflect_Int then Some (\<lambda>s. map_sum id VInt (Atoi s))
      else if k = reflect_Int64 then Some (\<lambda>s. map_sum id VInt (ParseInt s 64))
      else if k = reflect_Int32 then Some (\<lambda>s. map_sum id (\<lambda>v. VInt (to_int 32 v)) (ParseInt s 32))
      else if k = reflect_Int16 then Some (\<lambda>s. map_sum id (\<lambda>v. VInt (to_int 16 v)) (ParseInt s 16))
      else if k = reflect_Int8 then Some (\<lambda>s. map_sum id (\<lambda>v. VInt (to_int 8 v)) (ParseInt s 8))
      else if k = reflect_Uint then Some (\<lambda>s. map_sum id (\<lambda>v. VUint (to_uint IntSize v)) (ParseUint s 64))
      else if k = reflect_Uint64 then Some (\<lambda>s. map_sum id VUint (ParseUint s 64))
      else if k = reflect_Uint32 then Some (\<lambda>s. map_sum id (\<lambda>v. VUint (to_uint 32 v)) (ParseUint s 32))
      else if k = reflect_Uint16 then Some (\<lambda>s. map_sum id (\<lambda>v. VUint (to_uint 16 v)) (ParseUint s 16))
      else if k = reflect_Uint8 then Some (\<lambda>s. map_sum id (\<lambda>v. VUint (to_uint 8 v)) (ParseUint s 8))
      else None)"

text \<open>The loop of each case of \<open>parseSlice\<close>: it returns at the first error.\<close>

fun parseElems :: "(string \<Rightarrow> error + val) \<Rightarrow> string list \<Rightarrow> error + val list" where
  "parseElems p [] = Inr []"
| "parseElems p (s # ss) =
     (case p s of
        Inl e \<Rightarrow> Inl e
      | Inr v \<Rightarrow> (case parseElems p ss of Inl e \<Rightarrow> Inl e | Inr vs \<Rightarrow> Inr (v # vs)))"

text \<open>
  \<open>parseSlice\<close>, given the element type \<open>field.Type().Elem()\<close>. The parsed slice has a
  predeclared element type (\<open>[]int32\<close>), and \<open>field.Set\<close> panics unless that is
  assignable to the field's type: the element type must not be a defined type.
\<close>

definition parseSlice :: "env \<Rightarrow> rtype \<Rightarrow> val \<Rightarrow> string list \<Rightarrow> (val \<times> error option) outcome" where
  "parseSlice env et x values =
     (case parseElem env (Kind et) of
        None \<Rightarrow> Return (x, None)
      | Some p \<Rightarrow>
          (case parseElems p values of
             Inl e \<Rightarrow> Return (x, Some e)
           | Inr parsed \<Rightarrow>
               (case et of
                  Basic k \<Rightarrow> Return (VSlice (Some parsed), None)
                | _ \<Rightarrow> Panic ''reflect.Set: value is not assignable to the slice type'')))"

text \<open>
  \<open>parseField\<close> returns the field as the call leaves it, and the error. A defined type
  behaves as its underlying type: \<open>Kind\<close> and \<open>Elem\<close> look through the name.
\<close>

fun parseField :: "env \<Rightarrow> Values \<Rightarrow> rtype \<Rightarrow> val \<Rightarrow> string list \<Rightarrow> (val \<times> error option) outcome" where
  "parseField env q (Basic k) x values =
     (case parseScalar env k of
        None \<Rightarrow> Return (x, None)
      | Some p \<Rightarrow>
          (case values of
             [] \<Rightarrow> Panic ''index out of range [0] with length 0''
           | s # rest \<Rightarrow>
               (case p s of
                  Inl err \<Rightarrow> Return (x, Some err)
                | Inr y \<Rightarrow> Return (y, None))))"
| "parseField env q (PointerTo t) x values =
     (case parseField env q t (Zero t) values of
        Panic p \<Rightarrow> Panic p
      | Return (created, Some err) \<Rightarrow> Return (x, Some err)
      | Return (created, None) \<Rightarrow> Return (VPtr (Some created), None))"
| "parseField env q (SliceOf t) x values = parseSlice env t x values"
| "parseField env q (StructOf fs) x values = Return (x, None)"
| "parseField env q (Named n t) x values = parseField env q t x values"

text \<open>
  The body of the loop of \<open>parseStruct\<close> for one field: the field as the iteration leaves
  it, and the error it appends to \<open>errs\<close>, if any.
\<close>

definition parseStructField :: "env \<Rightarrow> Values \<Rightarrow> bool \<Rightarrow> StructField \<Rightarrow> val \<Rightarrow> (val \<times> error option) outcome" where
  "parseStructField env q canAddr fieldType field =
     (if \<not> IsExported fieldType then Return (field, None)
      else if \<not> canAddr then Return (field, None)
      else case decodeCustom env q canAddr (Type fieldType) field of
             Panic p \<Rightarrow> Panic p
           | Return (custom, field', err) \<Rightarrow>
               if custom then Return (field', err)
               else (case getValues env q fieldType of
                       Panic p \<Rightarrow> Panic p
                     | Return values \<Rightarrow>
                         if length values = 0 then Return (field, None)
                         else parseField env q (Type fieldType) field values))"

text \<open>The loop of \<open>parseStruct\<close>: the fields as it leaves them and \<open>errs\<close>, in field order.\<close>

fun parseFields :: "env \<Rightarrow> Values \<Rightarrow> bool \<Rightarrow> (StructField \<times> val) list \<Rightarrow> (val list \<times> error list) outcome" where
  "parseFields env q canAddr [] = Return ([], [])"
| "parseFields env q canAddr ((fieldType, field) # rest) =
     (case parseStructField env q canAddr fieldType field of
        Panic p \<Rightarrow> Panic p
      | Return (field', err) \<Rightarrow>
          (case parseFields env q canAddr rest of
             Panic p \<Rightarrow> Panic p
           | Return (fields', errs) \<Rightarrow>
               Return (field' # fields', (case err of None \<Rightarrow> [] | Some e \<Rightarrow> [e]) @ errs)))"

definition parseStruct :: "env \<Rightarrow> Values \<Rightarrow> bool \<Rightarrow> rtype \<Rightarrow> val list \<Rightarrow> (val \<times> error option) outcome" where
  "parseStruct env q canAddr typ xs =
     (case parseFields env q canAddr (zip (Fields typ) xs) of
        Panic p \<Rightarrow> Panic p
      | Return (xs', errs) \<Rightarrow> Return (VStruct xs', Join errs))"

text \<open>
  \<open>parse\<close> returns the value as the call leaves it, and the error. The \<open>Elem\<close> of a
  pointer can be addressed and set; that of a nil pointer is the zero \<open>reflect.Value\<close>,
  on which \<open>val.Type()\<close> panics.
\<close>

fun parse :: "env \<Rightarrow> Values \<Rightarrow> bool \<Rightarrow> rtype \<Rightarrow> val \<Rightarrow> (val \<times> error option) outcome" where
  "parse env q canAddr typ x =
     (case decodeCustom env q canAddr typ x of
        Panic p \<Rightarrow> Panic p
      | Return (custom, x', err) \<Rightarrow>
          if custom then Return (x', err)
          else if Kind typ = reflect_Ptr then
            (case x of
               VPtr (Some r) \<Rightarrow>
                 (case Elem typ of
                    Panic p \<Rightarrow> Panic p
                  | Return et \<Rightarrow>
                      (case parse env q True et r of
                         Panic p \<Rightarrow> Panic p
                       | Return (r', e) \<Rightarrow> Return (VPtr (Some r'), e)))
             | _ \<Rightarrow> Panic ''reflect: call of reflect.Value.Type on zero Value'')
          else if Kind typ = reflect_Struct then
            (case x of
               VStruct xs \<Rightarrow> parseStruct env q canAddr typ xs
             | _ \<Rightarrow> Panic ''reflect: call of reflect.Value.NumField on non-struct Value'')
          else Return (x, Some (Unsupported (Kind typ))))"

text \<open>
  \<open>Decode\<close>: \<open>q\<close> is \<open>None\<close> for the nil map; \<open>obj\<close> holds a value of type \<open>typ\<close>,
  and \<open>reflect.ValueOf(obj)\<close> cannot be addressed. The result is \<open>obj\<close> as the call
  leaves it, and the error.
\<close>

definition Decode :: "env \<Rightarrow> Values option \<Rightarrow> rtype \<Rightarrow> val \<Rightarrow> (val \<times> error option) outcome" where
  "Decode env q typ x =
     (case q of
        None \<Rightarrow> Return (x, None)
      | Some m \<Rightarrow> parse env m False typ x)"

section \<open>Notions of the specification\<close>

text \<open>
  A field whose value, or its address, implements the custom encode capability; likewise
  for decoding, where the address counts only for a field that can be addressed.
\<close>

definition customEncodable :: "env \<Rightarrow> rtype \<Rightarrow> bool" where
  "customEncodable env t = (Implements_Encoder env t \<or> Implements_Encoder env (PointerTo t))"

definition customDecodable :: "env \<Rightarrow> rtype \<Rightarrow> bool" where
  "customDecodable env t = (Implements_Decoder env t \<or> Implements_Decoder env (PointerTo t))"

text \<open>The type under the names of defined types.\<close>

fun underlying :: "rtype \<Rightarrow> rtype" where
  "underlying (Named n t) = underlying t"
| "underlying t = t"

text \<open>
  What Decode returns for a pointer to a record, given what the walk does at one field
  (\<open>step\<close>): the fields before and after are processed on their own, the field is left
  as the step leaves it, and the errors are joined in field order.
\<close>

definition decoded_record ::
  "env \<Rightarrow> Values \<Rightarrow> (StructField \<times> val) list \<Rightarrow> (val \<times> error option) outcome \<Rightarrow>
   (StructField \<times> val) list \<Rightarrow> (val \<times> error option) outcome" where
  "decoded_record env q pre step post =
     (case parseFields env q True pre of
        Panic p \<Rightarrow> Panic p
      | Return (ys1, es1) \<Rightarrow>
          (case step of
             Panic p \<Rightarrow> Panic p
           | Return (y, e) \<Rightarrow>
               (case parseFields env q True post of
                  Panic p \<Rightarrow> Panic p
                | Return (ys2, es2) \<Rightarrow>
                    Return (VPtr (Some (VStruct (ys1 @ y # ys2))),
                            Join (es1 @ (case e of None \<Rightarrow> [] | Some err \<Rightarrow> [err]) @ es2)))))"

text \<open>
  Well-formed literals, in the words of the coercion table: a decimal numeral is a
  non-empty string of digits, an integer literal a decimal numeral with an optional
  sign. A string is \<open>representable\<close> at a numeric kind when it is a well-formed literal
  whose value lies in the kind's bit-width range; for the float kinds, when
  \<open>strconv.ParseFloat\<close> accepts it at that width.
\<close>

definition decimal :: "string \<Rightarrow> bool" where
  "decimal s = (s \<noteq> [] \<and> list_all is_digit s)"

definition decimal_val :: "string \<Rightarrow> nat" where
  "decimal_val s = foldl (\<lambda>n c. n * 10 + digit_val c) 0 s"

definition int_literal :: "string \<Rightarrow> bool" where
  "int_literal s =
     (case s of
        [] \<Rightarrow> False
      | c # cs \<Rightarrow> if c = CHR ''+'' \<or> c = CHR ''-'' then decimal cs else decimal s)"

definition int_val :: "string \<Rightarrow> int" where
  "int_val s =
     (case s of
        [] \<Rightarrow> 0
      | c # cs \<Rightarrow>
          if c = CHR ''-'' then - int (decimal_val cs)
          else if c = CHR ''+'' then int (decimal_val cs)
          else int (decimal_val s))"

definition signed_kind :: "kind \<Rightarrow> bool" where
  "signed_kind k = (k \<in> {reflect_Int, reflect_Int8, reflect_Int16, reflect_Int32, reflect_Int64})"

definition unsigned_kind :: "kind \<Rightarrow> bool" where
  "unsigned_kind k = (k \<in> {reflect_Uint, reflect_Uint8, reflect_Uint16, reflect_Uint32, reflect_Uint64})"

definition numeric_kind :: "kind \<Rightarrow> bool" where
  "numeric_kind k = (signed_kind k \<or> unsigned_kind k \<or> k = reflect_Float32 \<or> k = reflect_Float64)"

definition scalar_kind :: "kind \<Rightarrow> bool" where
  "scalar_kind k = (k = reflect_String \<or> k = reflect_Bool \<or> numeric_kind k)"

definition representable :: "env \<Rightarrow> kind \<Rightarrow> string \<Rightarrow> bool" where
  "representable env k s =
     (if signed_kind k then
        int_literal s \<and> - (2 ^ (Bits k - 1)) \<le> int_val s \<and> int_val s < 2 ^ (Bits k - 1)
      else if unsigned_kind k then decimal s \<and> decimal_val s < 2 ^ Bits k
      else if k = reflect_Float32 then isl (ParseFloat32 env s) = False
      else if k = reflect_Float64 then isl (ParseFloat64 env s) = False
      else True)"

text \<open>
  The key a field gets when it has no name tag, and the string forms of the encoder: a
  string is \<open>canonical\<close> at a scalar kind when it is the string form of the value it
  denotes, so that formatting what was parsed gives the string back.
\<close>

definition default_name :: "env \<Rightarrow> StructField \<Rightarrow> string" where
  "default_name env f =
     (case Name f of [] \<Rightarrow> [] | r # rs \<Rightarrow> string_of_runes (unicode_ToLower env r # rs))"

definition canonical :: "env \<Rightarrow> kind \<Rightarrow> string \<Rightarrow> bool" where
  "canonical env k s =
     (if k = reflect_String then True
      else if k = reflect_Bool then s = ''true'' \<or> s = ''false''
      else if signed_kind k then representable env k s \<and> FormatInt (int_val s) = s
      else if unsigned_kind k then representable env k s \<and> FormatUint (decimal_val s) = s
      else if k = reflect_Float32 then
        (case ParseFloat32 env s of Inl e \<Rightarrow> False | Inr w \<Rightarrow> FormatFloat32 env w = s)
      else if k = reflect_Float64 then
        (case ParseFloat64 env s of Inl e \<Rightarrow> False | Inr w \<Rightarrow> FormatFloat64 env w = s)
      else False)"

text \<open>
  A visible field without tags, of a scalar type (predeclared or defined) that has no
  custom capability, whose derived key is not the exclude marker.
\<close>

definition plain_scalar_field :: "env \<Rightarrow> StructField \<Rightarrow> bool" where
  "plain_scalar_field env f =
     (IsExported f \<and> Tag f = [] \<and> Name f \<noteq> [] \<and> default_name env f \<noteq> ''-''
      \<and> (case underlying (Type f) of Basic k \<Rightarrow> scalar_kind k | _ \<Rightarrow> False)
      \<and> \<not> customDecodable env (Type f) \<and> \<not> customEncodable env (Type f))"

section \<open>The types of the repository's tests\<close>

text \<open>
  An environment for the examples: ASCII lower-casing, the custom encoders and decoders of
  the test files, and no float support (every float literal is rejected).
\<close>

definition ascii_ToLower :: "rune \<Rightarrow> rune" where
  "ascii_ToLower r = (if 65 \<le> r \<and> r \<le> 90 then r + 32 else r)"

definition runes :: "string \<Rightarrow> rune list" where
  "runes s = map of_char s"

definition customEncoderStruct_EncodeValues :: "val \<Rightarrow> (Values \<times> error option) outcome" where
  "customEncoderStruct_EncodeValues x =
     (case x of
        VPtr (Some (VStruct [VString s])) \<Rightarrow> Return ([''custom'' \<mapsto> [s]], None)
      | _ \<Rightarrow> Panic ''invalid memory address or nil pointer dereference'')"

definition customValueEncoderStruct_EncodeValues :: "val \<Rightarrow> (Values \<times> error option) outcome" where
  "customValueEncoderStruct_EncodeValues x =
     (case x of
        VStruct [VString s] \<Rightarrow> Return ([''custom'' \<mapsto> [s]], None)
      | _ \<Rightarrow> Panic ''not a customValueEncoderStruct'')"

definition failingEncoder_EncodeValues :: "val \<Rightarrow> (Values \<times> error option) outcome" where
  "failingEncoder_EncodeValues x = Return ([''partial'' \<mapsto> [''1'']], Some (UserError ''failed''))"

definition customStruct_DecodeQuery :: "Values \<Rightarrow> val \<Rightarrow> (val \<times> error option) outcome" where
  "customStruct_DecodeQuery q x =
     (case Atoi (case Get q ''custom'' of [] \<Rightarrow> [] | s # rest \<Rightarrow> s) of
        Inl e \<Rightarrow> Return (VStruct [VInt 0], Some e)
      | Inr i \<Rightarrow> Return (VStruct [VInt i], None))"

definition customDecoderType_DecodeQuery :: "Values \<Rightarrow> val \<Rightarrow> (val \<times> error option) outcome" where
  "customDecoderType_DecodeQuery q x = Return (VString ''called'', None)"

definition test_env :: env where
  "test_env =
     \<lparr> unicode_ToLower = ascii_ToLower,
       ParseFloat32 = (\<lambda>s. Inl (NumError ''ParseFloat'' s ErrSyntax)),
       ParseFloat64 = (\<lambda>s. Inl (NumError ''ParseFloat'' s ErrSyntax)),
       FormatFloat32 = (\<lambda>w. ''NaN''),
       FormatFloat64 = (\<lambda>w. ''NaN''),
       EncodeValues =
         [''customEncoderStruct'' \<mapsto> (ByPointer, customEncoderStruct_EncodeValues),
          ''customValueEncoderStruct'' \<mapsto> (ByValue, customValueEncoderStruct_EncodeValues),
          ''failingEncoder'' \<mapsto> (ByValue, failingEncoder_EncodeValues)],
       DecodeQuery =
         [''customStruct'' \<mapsto> (ByPointer, customStruct_DecodeQuery),
          ''customDecoderType'' \<mapsto> (ByPointer, customDecoderType_DecodeQuery)] \<rparr>"

definition field :: "string \<Rightarrow> (string \<times> string) list \<Rightarrow> rtype \<Rightarrow> StructField" where
  "field name tag typ = (runes name, [], tag, typ)"

definition defaultedStruct :: rtype where
  "defaultedStruct = StructOf [field ''PageSize'' [(''default'', ''25'')] (Basic reflect_Uint32)]"


definition nilPointerStruct :: rtype where
  "nilPointerStruct = StructOf [field ''Int'' [] (PointerTo (Basic reflect_Int))]"

definition stringStruct :: rtype where
  "stringStruct = StructOf [field ''String'' [(''query'', ''string,omitempty'')] (Basic reflect_String)]"

definition pointerTestStruct :: rtype where
  "pointerTestStruct =
     StructOf [field ''String'' [] (PointerTo (Basic reflect_String)),
               field ''Int'' [] (PointerTo (Basic reflect_Int))]"




definition smallIntsStruct :: rtype where
  "smallIntsStruct =
     StructOf [field ''Int8'' [] (Basic reflect_Int8), field ''Uint8'' [] (Basic reflect_Uint8)]"


definition scalarsStruct :: rtype where
  "scalarsStruct =
     Named ''scalarsStruct''
       (StructOf [field ''String'' [] (Basic reflect_String),
                  field ''Bool'' [] (Basic reflect_Bool),
                  field ''Int8'' [] (Basic reflect_Int8),
                  field ''Uint16'' [] (Basic reflect_Uint16)])"

definition intStruct :: rtype where
  "intStruct = StructOf [field ''Int'' [] (Basic reflect_Int)]"

definition failingFieldStruct :: rtype where
  "failingFieldStruct =
     StructOf [field ''Before'' [] (Basic reflect_String),
               field ''Failing'' [] (Named ''failingEncoder'' (StructOf []))]"






section \<open>Evaluation of the examples\<close>

lemmas field_defs =
  field_def runes_def Name_def PkgPath_def Tag_def Type_def IsExported_def Lookup_def

lemmas name_defs =
  getNameTags_def getDefaultTags_def getName_def getValues_def TagName_def TagDefault_def
  string_of_runes_def utf8_def test_env_def ascii_ToLower_def Add_def Get_def
  char_of_def bit_Suc_0_iff

lemmas encode_defs =
  Encode_def encode_def encodeCustom_def getEncodingName_def customEncodable_def
  merge_Values_def customEncoderStruct_EncodeValues_def
  customValueEncoderStruct_EncodeValues_def failingEncoder_EncodeValues_def

lemmas decode_defs =
  Decode_def decodeCustom_def parseStruct_def parseStructField_def parseSlice_def
  parseScalar_def parseElem_def Join_def customDecodable_def
  customStruct_DecodeQuery_def customDecoderType_DecodeQuery_def

lemmas strconv_defs =
  ParseInt_def ParseUint_def Atoi_def ParseBool_def FormatBool_def FormatInt_def
  is_digit_def digit_val_def digit_char_def IntSize_def to_int_def to_uint_def

section \<open>The encoder's walk over the fields\<close>

lemma encodeCustom_not_custom:
  "\<not> customEncodable env t \<Longrightarrow> encodeCustom env v t x = Return (False, v, None)"
  by (simp add: encodeCustom_def customEncodable_def)



lemma Split_not_Nil: "Split s sep \<noteq> []"
  by (induction s) (auto split: list.splits)

lemma getNameTags_Return:
  "Name f \<noteq> [] \<Longrightarrow> \<exists>n0 rest. getNameTags env f = Return (n0 # rest)"
  using Split_not_Nil [of _ "CHR '',''"]
  by (auto simp add: getNameTags_def neq_Nil_conv split: option.splits list.splits)

section \<open>C3: decoding the nil map\<close>

text \<open>
  C3 (as amended). If the input value map is absent (nil), Decode returns success and
  leaves the target exactly as it was, whatever the target and whatever custom decoders
  exist: nothing is looked up, no default is applied, no decoder runs. An empty map that
  is not nil is decoded like any other map.
\<close>

theorem Decode_nil_map: "Decode env None typ x = Return (x, None)"
  by (simp add: Decode_def)

text \<open>
  The claim as stated fails for the empty map: a field with a default is set from it.
\<close>

theorem Decode_empty_map_applies_defaults:
  "Decode test_env (Some Map.empty) (PointerTo defaultedStruct) (VPtr (Some (VStruct [VUint 0])))
     = Return (VPtr (Some (VStruct [VUint 25])), None)"
  by (simp add: defaultedStruct_def field_defs name_defs decode_defs strconv_defs)

lemma encodeFields_nil_pointer:
  assumes "\<not> customEncodable env (Type f)" and "Name f \<noteq> []"
  shows "encodeFields env v (pre @ (f, VPtr None) # post) = encodeFields env v (pre @ post)"
proof (induction pre arbitrary: v)
  case Nil
  obtain n0 rest where "getNameTags env f = Return (n0 # rest)"
    using getNameTags_Return [OF assms(2)] by blast
  then show ?case
    by (simp add: encodeCustom_not_custom assms(1) getEncodingName_def)
next
  case (Cons a pre)
  obtain g y where a: "a = (g, y)" by (cases a)
  show ?case unfolding a
    by (simp add: Cons.IH split: outcome.splits prod.splits)
qed

lemma encode_struct:
  assumes "Kind st = reflect_Struct" and "\<not> customEncodable env st"
  shows "encode env v st (VStruct xs) = encodeFields env v (zip (Fields st) xs)"
  using assms by (simp add: encode_def encodeCustom_not_custom)

section \<open>C5: a custom field ends the encoder's walk\<close>



section \<open>C6: a nil pointer field\<close>

text \<open>
  C6 (as amended). A field that holds a nil pointer and whose type is not
  custom-encodable adds no entry: Encode returns what the walk over the other fields
  returns, so the field's key is omitted rather than bound to a zero value's string
  form.
\<close>

theorem Encode_nil_pointer_field_omitted:
  assumes "Kind st = reflect_Struct" and "\<not> customEncodable env st"
    and "Fields st = fs1 @ f # fs2" and "length xs1 = length fs1"
    and "\<not> customEncodable env (Type f)" and "Name f \<noteq> []"
  shows "Encode env (Some (st, VStruct (xs1 @ VPtr None # xs2))) =
           encodeFields env Map.empty (zip (fs1 @ fs2) (xs1 @ xs2))"
proof -
  have z: "zip (Fields st) (xs1 @ VPtr None # xs2) = zip fs1 xs1 @ (f, VPtr None) # zip fs2 xs2"
    using assms(3,4) by simp
  show ?thesis
    using assms(4)
    by (simp add: Encode_def encode_struct [OF assms(1,2)] z encodeFields_nil_pointer [OF assms(5,6)])
qed

theorem Encode_nil_pointer_field_omitted_witness:
  "Encode test_env
     (Some (pointerTestStruct, VStruct ([VPtr (Some (VString ''hello world''))] @ VPtr None # [])))
   = Return ([''string'' \<mapsto> [''hello world'']], None)"
  by (subst Encode_nil_pointer_field_omitted
        [where ?fs1.0 = "[field ''String'' [] (PointerTo (Basic reflect_String))]"
           and f = "field ''Int'' [] (PointerTo (Basic reflect_Int))" and ?fs2.0 = "[]"])
     (simp_all add: pointerTestStruct_def field_defs name_defs encode_defs)

text \<open>The claim as stated fails: the map has no entry under \<open>int\<close>, not \<open>["0"]\<close>.\<close>

theorem Encode_nil_pointer_no_zero_string:
  "Encode test_env (Some (nilPointerStruct, VStruct [VPtr None])) = Return (Map.empty, None)"
  by (simp add: nilPointerStruct_def field_defs name_defs encode_defs)

section \<open>C9: what Encode returns on a value that is no record\<close>

text \<open>
  C9. Encode is to return a map for every input, empty on a type error. The code does
  not: on a value that is neither custom-encodable nor a record, and on a pointer to a
  record, \<open>val.NumField()\<close> panics and nothing is returned.
\<close>

theorem Encode_non_record_panics:
  "Encode test_env (Some (Basic reflect_Int, VInt 42))
     = Panic ''reflect: call of reflect.Value.NumField on non-struct Value''
   \<and> Encode test_env (Some (PointerTo stringStruct, VPtr (Some (VStruct [VString ''hello world'']))))
     = Panic ''reflect: call of reflect.Value.NumField on non-struct Value''"
  by (simp add: stringStruct_def field_defs encode_defs)

text \<open>
  What does hold of a custom encoder that fails: the entries of the earlier fields and
  the entries the encoder returned stay in the map that comes back with the error.
\<close>

lemma Encode_keeps_entries_on_custom_error:
  "Encode test_env (Some (failingFieldStruct, VStruct [VString ''a'', VStruct []]))
     = Return ([''before'' \<mapsto> [''a''], ''partial'' \<mapsto> [''1'']], Some (UserError ''failed''))"
proof -
  have "merge_Values [''before'' \<mapsto> [''a'']] [''partial'' \<mapsto> [''1'']]
      = [''before'' \<mapsto> [''a''], ''partial'' \<mapsto> [''1'']]"
    by (auto simp add: merge_Values_def Get_def fun_eq_iff)
  then show ?thesis
    by (simp add: failingFieldStruct_def field_defs name_defs Encode_def encode_def encodeCustom_def
          getEncodingName_def test_env_def failingEncoder_EncodeValues_def)
qed

section \<open>The decoder's walk over the fields\<close>

declare parse.simps [simp del]

lemma parseFields_append:
  "parseFields env q c (pre @ post) =
     (case parseFields env q c pre of
        Panic p \<Rightarrow> Panic p
      | Return (ys1, es1) \<Rightarrow>
          (case parseFields env q c post of
             Panic p \<Rightarrow> Panic p
           | Return (ys2, es2) \<Rightarrow> Return (ys1 @ ys2, es1 @ es2)))"
proof (induction pre)
  case Nil
  show ?case by (simp split: outcome.splits prod.splits)
next
  case (Cons a pre)
  obtain g y where a: "a = (g, y)" by (cases a)
  show ?case unfolding a
    by (simp add: Cons.IH split: outcome.splits prod.splits)
qed

lemma decodeCustom_not_custom:
  "\<not> customDecodable env t \<Longrightarrow> decodeCustom env q c t x = Return (False, x, None)"
  by (simp add: decodeCustom_def customDecodable_def)

lemma Decode_record:
  assumes "Kind st = reflect_Struct" and "\<not> customDecodable env st"
  shows "Decode env (Some q) (PointerTo st) (VPtr (Some (VStruct xs))) =
     (case parseFields env q True (zip (Fields st) xs) of
        Panic p \<Rightarrow> Panic p
      | Return (ys, errs) \<Rightarrow> Return (VPtr (Some (VStruct ys)), Join errs))"
proof -
  have a: "decodeCustom env q False (PointerTo st) (VPtr (Some (VStruct xs)))
             = Return (False, VPtr (Some (VStruct xs)), None)"
    using assms(2) by (simp add: decodeCustom_def customDecodable_def)
  have b: "parse env q True st (VStruct xs) = parseStruct env q True st xs"
    using assms by (subst parse.simps) (simp add: decodeCustom_not_custom)
  have c: "parse env q False (PointerTo st) (VPtr (Some (VStruct xs))) =
      (case parseStruct env q True st xs of
         Panic p \<Rightarrow> Panic p
       | Return (r', e) \<Rightarrow> Return (VPtr (Some r'), e))"
    by (subst parse.simps) (simp add: a b)
  show ?thesis
    by (simp add: Decode_def c parseStruct_def split: outcome.splits prod.splits)
qed

lemma Decode_record_field:
  assumes "Kind st = reflect_Struct" and "\<not> customDecodable env st"
    and "Fields st = fs1 @ f # fs2" and "length xs1 = length fs1"
  shows "Decode env (Some q) (PointerTo st) (VPtr (Some (VStruct (xs1 @ x # xs2)))) =
           decoded_record env q (zip fs1 xs1) (parseStructField env q True f x) (zip fs2 xs2)"
proof -
  have z: "zip (Fields st) (xs1 @ x # xs2) = zip fs1 xs1 @ [(f, x)] @ zip fs2 xs2"
    using assms(3,4) by simp
  have one: "parseFields env q True [(f, x)] =
      (case parseStructField env q True f x of
         Panic p \<Rightarrow> Panic p
       | Return (y, e) \<Rightarrow> Return ([y], case e of None \<Rightarrow> [] | Some err \<Rightarrow> [err]))"
    by (simp split: outcome.splits prod.splits)
  show ?thesis
    unfolding Decode_record [OF assms(1,2)] z parseFields_append one decoded_record_def
    by (simp split: outcome.splits prod.splits)
qed

section \<open>Scalar values in the encoder\<close>

lemma encodeField_scalar:
  "encodeElem env x = Some s \<Longrightarrow> encodeField env v x key = Add v key s"
  by (cases x) auto


section \<open>C4: the name tag "-"\<close>






section \<open>C10: a nil pointer to a custom decoder\<close>







section \<open>strconv: what the integer parsers accept\<close>

lemma foldl_digits_ge: "n \<le> foldl (\<lambda>n c. n * 10 + digit_val c) n s"
proof (induction s arbitrary: n)
  case Nil
  show ?case by simp
next
  case (Cons c cs)
  have "n \<le> n * 10 + digit_val c" by simp
  also have "\<dots> \<le> foldl (\<lambda>n c. n * 10 + digit_val c) (n * 10 + digit_val c) cs"
    by (rule Cons.IH)
  finally show ?case by simp
qed

lemma ParseUint_loop_Inr:
  "n \<le> M \<Longrightarrow>
   ParseUint_loop M n s = Inr m \<longleftrightarrow>
     list_all is_digit s \<and> foldl (\<lambda>n c. n * 10 + digit_val c) n s = m \<and> m \<le> M"
proof (induction s arbitrary: n)
  case Nil
  then show ?case by auto
next
  case (Cons c cs)
  show ?case
  proof (cases "is_digit c \<and> n * 10 + digit_val c \<le> M")
    case True
    then show ?thesis using Cons.IH [of "n * 10 + digit_val c"] by simp
  next
    case False
    have "n * 10 + digit_val c \<le> foldl (\<lambda>n c. n * 10 + digit_val c) (n * 10 + digit_val c) cs"
      by (rule foldl_digits_ge)
    with False show ?thesis by auto
  qed
qed

lemma ParseUint_Inr:
  "ParseUint s b = Inr m \<longleftrightarrow>
     decimal s \<and> decimal_val s = m \<and> m < 2 ^ (if b = 0 then IntSize else b)"
proof -
  let ?w = "if b = 0 then IntSize else b"
  have le: "\<And>m. m \<le> 2 ^ ?w - 1 \<longleftrightarrow> m < (2::nat) ^ ?w"
    by (metis Suc_pred' less_Suc_eq_le zero_less_numeral zero_less_power)
  have "ParseUint s b = Inr m \<longleftrightarrow> s \<noteq> [] \<and> ParseUint_loop (2 ^ ?w - 1) 0 s = Inr m"
    by (auto simp add: ParseUint_def split: sum.splits)
  also have "\<dots> \<longleftrightarrow> decimal s \<and> decimal_val s = m \<and> m \<le> 2 ^ ?w - 1"
    by (auto simp add: ParseUint_loop_Inr decimal_def decimal_val_def)
  finally show ?thesis by (simp only: le)
qed

lemma ParseUint_cases:
  "(\<exists>m. ParseUint s b = Inr m) \<or> (\<exists>c. ParseUint s b = Inl (NumError ''ParseUint'' s c))"
  by (auto simp add: ParseUint_def split: sum.splits)

lemma ParseInt_Inr:
  "ParseInt s b = Inr i \<longleftrightarrow>
     int_literal s \<and> int_val s = i
     \<and> - (2 ^ ((if b = 0 then IntSize else b) - 1)) \<le> i \<and> i < 2 ^ ((if b = 0 then IntSize else b) - 1)"
proof (cases s)
  case Nil
  then show ?thesis by (simp add: ParseInt_def int_literal_def)
next
  case (Cons c cs)
  let ?w = "if b = 0 then IntSize else b"
  let ?body = "if c = CHR ''+'' \<or> c = CHR ''-'' then cs else s"
  have pow: "(2::nat) ^ (?w - 1) \<le> 2 ^ ?w"
    by (rule power_increasing) simp_all
  have lit: "int_literal s = decimal ?body"
    by (simp add: int_literal_def Cons)
  have val: "int_val s = (if c = CHR ''-'' then - int (decimal_val ?body) else int (decimal_val ?body))"
    by (simp add: int_val_def Cons)
  consider (ok) un where "ParseUint ?body b = Inr un"
    | (bad) e where "ParseUint ?body b = Inl (NumError ''ParseUint'' ?body e)"
    using ParseUint_cases [of ?body b] by blast
  then show ?thesis
  proof cases
    case ok
    have d: "decimal ?body" "decimal_val ?body = un"
      using ok ParseUint_Inr [of ?body b un] by simp_all
    have lit': "int_literal s"
      by (simp only: lit d(1))
    have val': "int_val s = (if c = CHR ''-'' then - int un else int un)"
      by (simp only: val d(2))
    have "ParseInt s b = Inr i \<longleftrightarrow>
            \<not> (c \<noteq> CHR ''-'' \<and> un \<ge> 2 ^ (?w - 1)) \<and> \<not> (c = CHR ''-'' \<and> un > 2 ^ (?w - 1))
            \<and> i = (if c = CHR ''-'' then - int un else int un)"
      using ok by (auto simp add: ParseInt_def Cons Let_def split: if_splits)
    also have "\<dots> \<longleftrightarrow> int_literal s \<and> int_val s = i
        \<and> - (2 ^ (?w - 1)) \<le> i \<and> i < 2 ^ (?w - 1)"
    proof (cases "c = CHR ''-''")
      case True
      have pos: "- int un < 2 ^ (?w - 1)"
        by (rule less_le_trans [of _ 1]) simp_all
      have "- (2 ^ (?w - 1)) \<le> - int un \<longleftrightarrow> un \<le> 2 ^ (?w - 1)"
        by simp
      then show ?thesis
        using True pos by (auto simp only: lit' val' if_True not_less simp_thms)
    next
      case False
      have neg: "- (2 ^ (?w - 1)) \<le> int un"
        by (rule order_trans [of _ 0]) simp_all
      have "int un < 2 ^ (?w - 1) \<longleftrightarrow> un < 2 ^ (?w - 1)"
        by simp
      then show ?thesis
        using False neg by (auto simp only: lit' val' if_False not_le simp_thms)
    qed
    finally show ?thesis .
  next
    case bad
    have lhs: "ParseInt s b \<noteq> Inr i"
      using bad by (cases e) (auto simp add: ParseInt_def Cons Let_def)
    have nb: "\<not> decimal ?body \<or> 2 ^ ?w \<le> decimal_val ?body"
      using bad ParseUint_Inr [of ?body b "decimal_val ?body"] by auto
    have rhs: "\<not> (int_literal s \<and> int_val s = i
        \<and> - (2 ^ (?w - 1)) \<le> i \<and> i < 2 ^ (?w - 1))"
    proof (cases "decimal ?body")
      case False
      then show ?thesis by (simp add: lit)
    next
      case True
      with nb have big: "2 ^ ?w \<le> decimal_val ?body" by simp
      with pow have "(2::nat) ^ (?w - 1) \<le> decimal_val ?body" by linarith
      moreover have "(2::nat) ^ (?w - 1) < 2 ^ ?w"
        by (rule power_strict_increasing) (simp_all add: IntSize_def)
      ultimately have "int (2 ^ (?w - 1)) < int (decimal_val ?body)"
        using big by linarith
      then show ?thesis unfolding val by (auto simp add: of_nat_power)
    qed
    show ?thesis using lhs rhs by blast
  qed
qed

section \<open>C2: a numeric field and a string outside its range\<close>

lemma ParseInt_Inl: "ParseInt s b = Inl e \<Longrightarrow> \<exists>c. e = NumError ''ParseInt'' s c"
  by (auto simp add: ParseInt_def Let_def split: list.splits sum.splits error.splits numerr.splits if_splits)

lemma ParseUint_Inl: "ParseUint s b = Inl e \<Longrightarrow> \<exists>c. e = NumError ''ParseUint'' s c"
  by (auto simp add: ParseUint_def split: sum.splits if_splits)

lemma ParseInt_not_representable:
  assumes "\<not> (int_literal s \<and> - (2 ^ (b - 1)) \<le> int_val s \<and> int_val s < 2 ^ (b - 1))" and "0 < b"
  shows "\<exists>c. ParseInt s b = Inl (NumError ''ParseInt'' s c)"
proof (cases "ParseInt s b")
  case (Inl e)
  then show ?thesis using ParseInt_Inl by blast
next
  case (Inr i)
  then show ?thesis using assms ParseInt_Inr [of s b i] by auto
qed

lemma ParseUint_not_representable:
  assumes "\<not> (decimal s \<and> decimal_val s < 2 ^ b)" and "0 < b"
  shows "\<exists>c. ParseUint s b = Inl (NumError ''ParseUint'' s c)"
proof (cases "ParseUint s b")
  case (Inl e)
  then show ?thesis using ParseUint_Inl by blast
next
  case (Inr m)
  then show ?thesis using assms ParseUint_Inr [of s b m] by auto
qed

lemma parseScalar_signed_error:
  assumes "signed_kind k" and "\<not> representable env k s"
  shows "\<exists>p c. parseScalar env k = Some p \<and> p s = Inl (NumError ''ParseInt'' s c)"
proof -
  have nr: "\<not> (int_literal s \<and> - (2 ^ (Bits k - 1)) \<le> int_val s \<and> int_val s < 2 ^ (Bits k - 1))"
    using assms by (simp add: representable_def)
  consider "k = reflect_Int" | "k = reflect_Int8" | "k = reflect_Int16" | "k = reflect_Int32"
    | "k = reflect_Int64"
    using assms(1) by (auto simp add: signed_kind_def)
  then show ?thesis
  proof cases
    case 1
    then show ?thesis using ParseInt_not_representable [of s 64] nr
      by (auto simp add: parseScalar_def IntSize_def)
  next
    case 2
    then show ?thesis using ParseInt_not_representable [of s 8] nr
      by (auto simp add: parseScalar_def)
  next
    case 3
    then show ?thesis using ParseInt_not_representable [of s 16] nr
      by (auto simp add: parseScalar_def)
  next
    case 4
    then show ?thesis using ParseInt_not_representable [of s 32] nr
      by (auto simp add: parseScalar_def)
  next
    case 5
    then show ?thesis using ParseInt_not_representable [of s 64] nr
      by (auto simp add: parseScalar_def)
  qed
qed

lemma parseScalar_unsigned_error:
  assumes "unsigned_kind k" and "\<not> representable env k s"
  shows "\<exists>p c. parseScalar env k = Some p \<and> p s = Inl (NumError ''ParseUint'' s c)"
proof -
  have nr: "\<not> (decimal s \<and> decimal_val s < 2 ^ Bits k)"
    using assms by (auto simp add: representable_def signed_kind_def unsigned_kind_def)
  consider "k = reflect_Uint" | "k = reflect_Uint8" | "k = reflect_Uint16" | "k = reflect_Uint32"
    | "k = reflect_Uint64"
    using assms(1) by (auto simp add: unsigned_kind_def)
  then show ?thesis
  proof cases
    case 1
    then show ?thesis using ParseUint_not_representable [of s 64] nr
      by (auto simp add: parseScalar_def IntSize_def)
  next
    case 2
    then show ?thesis using ParseUint_not_representable [of s 8] nr
      by (auto simp add: parseScalar_def)
  next
    case 3
    then show ?thesis using ParseUint_not_representable [of s 16] nr
      by (auto simp add: parseScalar_def)
  next
    case 4
    then show ?thesis using ParseUint_not_representable [of s 32] nr
      by (auto simp add: parseScalar_def)
  next
    case 5
    then show ?thesis using ParseUint_not_representable [of s 64] nr
      by (auto simp add: parseScalar_def)
  qed
qed

lemma parseScalar_float_error:
  assumes "k = reflect_Float32 \<or> k = reflect_Float64" and "\<not> representable env k s"
  shows "\<exists>p e. parseScalar env k = Some p \<and> p s = Inl e"
  using assms
  by (auto simp add: representable_def signed_kind_def unsigned_kind_def parseScalar_def isl_def)

lemma parseScalar_numeric_error:
  assumes "numeric_kind k" and "\<not> representable env k s"
  shows "\<exists>p e. parseScalar env k = Some p \<and> p s = Inl e
           \<and> (signed_kind k \<or> unsigned_kind k \<longrightarrow> (\<exists>fn c. e = NumError fn s c))"
  using assms parseScalar_signed_error [of k env s] parseScalar_unsigned_error [of k env s]
    parseScalar_float_error [of k env s]
  unfolding numeric_kind_def by (elim disjE) (blast, blast, auto simp add: signed_kind_def unsigned_kind_def)

lemma parseField_underlying:
  "parseField env q t x vs = parseField env q (underlying t) x vs"
  by (induction t) simp_all


lemma parseStructField_scalar:
  assumes "IsExported f" and "\<not> customDecodable env (Type f)"
    and "getName env f = Return name" and "Get q name = s # rest"
    and "underlying (Type f) = Basic k" and "parseScalar env k = Some p"
  shows "parseStructField env q True f x =
           (case p s of Inl e \<Rightarrow> Return (x, Some e) | Inr y \<Rightarrow> Return (y, None))"
proof -
  have vals: "getValues env q f = Return (s # rest)"
    by (simp add: getValues_def assms(3,4))
  have pf: "parseField env q (Type f) x (s # rest) =
              (case p s of Inl e \<Rightarrow> Return (x, Some e) | Inr y \<Rightarrow> Return (y, None))"
    by (subst parseField_underlying) (simp add: assms(5,6))
  show ?thesis
    using assms(1) by (simp add: parseStructField_def decodeCustom_not_custom [OF assms(2)] vals pf)
qed

text \<open>
  C2. Let the visible field \<open>f\<close> of a record decoded through a pointer have a numeric
  kind \<open>k\<close> (a signed or unsigned integer of any width, or a float) and no custom
  decoder, and let the first string \<open>s\<close> that the map holds under the field's name be
  malformed or outside the range of \<open>k\<close>. Then Decode records an error \<open>e\<close> for the field
  (for an integer kind a \<open>strconv.NumError\<close> about \<open>s\<close>) and leaves the field at its value
  \<open>x\<close> from before the call; the other fields are decoded as usual and their errors are
  joined with \<open>e\<close>.
\<close>

theorem Decode_numeric_error_keeps_field:
  assumes "Kind st = reflect_Struct" and "\<not> customDecodable env st"
    and "Fields st = fs1 @ f # fs2" and "length xs1 = length fs1"
    and "IsExported f" and "\<not> customDecodable env (Type f)"
    and "underlying (Type f) = Basic k" and "numeric_kind k"
    and "getName env f = Return name" and "Get q name = s # rest"
    and "\<not> representable env k s"
  shows "\<exists>e. Decode env (Some q) (PointerTo st) (VPtr (Some (VStruct (xs1 @ x # xs2)))) =
               decoded_record env q (zip fs1 xs1) (Return (x, Some e)) (zip fs2 xs2)
             \<and> (signed_kind k \<or> unsigned_kind k \<longrightarrow> (\<exists>fn c. e = NumError fn s c))"
proof -
  obtain p e where p: "parseScalar env k = Some p" "p s = Inl e"
    and e: "signed_kind k \<or> unsigned_kind k \<longrightarrow> (\<exists>fn c. e = NumError fn s c)"
    using parseScalar_numeric_error [OF assms(8,11)] by blast
  have "parseStructField env q True f x = Return (x, Some e)"
    using parseStructField_scalar [OF assms(5,6,9,10,7) p(1), of x] p(2) by simp
  then show ?thesis
    using Decode_record_field [OF assms(1,2,3,4), of q x xs2] e by auto
qed

theorem Decode_numeric_error_keeps_field_witness:
  "\<exists>e. Decode test_env (Some [''int8'' \<mapsto> [''128''], ''uint8'' \<mapsto> [''7'']]) (PointerTo smallIntsStruct)
          (VPtr (Some (VStruct ([] @ VInt 5 # [VUint 0]))))
        = Return (VPtr (Some (VStruct [VInt 5, VUint 7])), Some (Joined [e]))"
proof -
  let ?f = "field ''Int8'' [] (Basic reflect_Int8)"
  let ?g = "field ''Uint8'' [] (Basic reflect_Uint8)"
  let ?q = "[''int8'' \<mapsto> [''128''], ''uint8'' \<mapsto> [''7'']]"
  have "\<exists>e. Decode test_env (Some ?q) (PointerTo smallIntsStruct)
          (VPtr (Some (VStruct ([] @ VInt 5 # [VUint 0])))) =
        decoded_record test_env ?q (zip [] []) (Return (VInt 5, Some e)) (zip [?g] [VUint 0])
        \<and> (signed_kind reflect_Int8 \<or> unsigned_kind reflect_Int8 \<longrightarrow> (\<exists>fn c. e = NumError fn ''128'' c))"
    by (rule Decode_numeric_error_keeps_field [where f = ?f and name = "''int8''" and rest = "[]"])
       (simp_all add: smallIntsStruct_def field_defs name_defs customDecodable_def numeric_kind_def
          signed_kind_def representable_def int_literal_def int_val_def decimal_def decimal_val_def
          is_digit_def digit_val_def)
  then obtain e where
    "Decode test_env (Some ?q) (PointerTo smallIntsStruct)
          (VPtr (Some (VStruct ([] @ VInt 5 # [VUint 0])))) =
        decoded_record test_env ?q (zip [] []) (Return (VInt 5, Some e)) (zip [?g] [VUint 0])"
    by blast
  moreover have "decoded_record test_env ?q (zip [] []) (Return (VInt 5, Some e)) (zip [?g] [VUint 0])
      = Return (VPtr (Some (VStruct [VInt 5, VUint 7])), Some (Joined [e]))"
    by (simp add: decoded_record_def field_defs name_defs decode_defs strconv_defs)
  ultimately show ?thesis by (intro exI [of _ e]) simp
qed

section \<open>C8: sequence-typed fields\<close>








section \<open>C1: decoding, then encoding\<close>

lemma Kind_underlying: "Kind (underlying t) = Kind t"
  by (induction t) simp_all

lemma Fields_underlying: "Fields (underlying t) = Fields t"
  by (induction t) simp_all

lemma to_int_id: "- (2 ^ (b - 1)) \<le> i \<Longrightarrow> i < 2 ^ (b - 1) \<Longrightarrow> to_int b i = i"
  by (simp add: to_int_def signed_take_bit_int_eq_self)

lemma to_uint_id: "u < 2 ^ b \<Longrightarrow> to_uint b u = u"
  by (simp add: to_uint_def take_bit_nat_eq_self)

lemma canonical_signed:
  assumes "signed_kind k" and "canonical env k s"
  shows "\<exists>p y. parseScalar env k = Some p \<and> p s = Inr y \<and> encodeElem env y = Some s"
proof -
  have ns: "k \<noteq> reflect_String" "k \<noteq> reflect_Bool"
    using assms(1) by (auto simp add: signed_kind_def)
  have c: "int_literal s" "- (2 ^ (Bits k - 1)) \<le> int_val s" "int_val s < 2 ^ (Bits k - 1)"
     "FormatInt (int_val s) = s"
    using assms ns by (simp_all add: canonical_def representable_def)
  have id: "to_int (Bits k) (int_val s) = int_val s"
    using c(2,3) by (rule to_int_id)
  have parse: "\<And>b. 0 < b \<Longrightarrow> Bits k = b \<Longrightarrow> ParseInt s b = Inr (int_val s)"
    using c(1,2,3) ParseInt_Inr [of s _ "int_val s"] by simp
  consider "k = reflect_Int" | "k = reflect_Int8" | "k = reflect_Int16" | "k = reflect_Int32"
    | "k = reflect_Int64"
    using assms(1) by (auto simp add: signed_kind_def)
  then show ?thesis
  proof cases
    case 1
    then show ?thesis using parse [of 64] id c(4) by (simp add: parseScalar_def IntSize_def)
  next
    case 2
    then show ?thesis using parse [of 8] id c(4) by (simp add: parseScalar_def)
  next
    case 3
    then show ?thesis using parse [of 16] id c(4) by (simp add: parseScalar_def)
  next
    case 4
    then show ?thesis using parse [of 32] id c(4) by (simp add: parseScalar_def)
  next
    case 5
    then show ?thesis using parse [of 64] id c(4) by (simp add: parseScalar_def)
  qed
qed

lemma canonical_unsigned:
  assumes "unsigned_kind k" and "canonical env k s"
  shows "\<exists>p y. parseScalar env k = Some p \<and> p s = Inr y \<and> encodeElem env y = Some s"
proof -
  have ns: "k \<noteq> reflect_String" "k \<noteq> reflect_Bool" "\<not> signed_kind k"
    using assms(1) by (auto simp add: signed_kind_def unsigned_kind_def)
  have c: "decimal s" "decimal_val s < 2 ^ Bits k" "FormatUint (decimal_val s) = s"
    using assms ns by (simp_all add: canonical_def representable_def del: FormatUint.simps)
  have id: "to_uint (Bits k) (decimal_val s) = decimal_val s"
    using c(2) by (rule to_uint_id)
  have parse: "\<And>b. 0 < b \<Longrightarrow> Bits k = b \<Longrightarrow> ParseUint s b = Inr (decimal_val s)"
    using c(1,2) ParseUint_Inr [of s _ "decimal_val s"] by simp
  consider "k = reflect_Uint" | "k = reflect_Uint8" | "k = reflect_Uint16" | "k = reflect_Uint32"
    | "k = reflect_Uint64"
    using assms(1) by (auto simp add: unsigned_kind_def)
  then show ?thesis
  proof cases
    case 1
    then show ?thesis using parse [of 64] id c(3)
      by (simp add: parseScalar_def IntSize_def del: FormatUint.simps)
  next
    case 2
    then show ?thesis using parse [of 8] id c(3) by (simp add: parseScalar_def del: FormatUint.simps)
  next
    case 3
    then show ?thesis using parse [of 16] id c(3) by (simp add: parseScalar_def del: FormatUint.simps)
  next
    case 4
    then show ?thesis using parse [of 32] id c(3) by (simp add: parseScalar_def del: FormatUint.simps)
  next
    case 5
    then show ?thesis using parse [of 64] id c(3) by (simp add: parseScalar_def del: FormatUint.simps)
  qed
qed

lemma canonical_String:
  "\<exists>p y. parseScalar env reflect_String = Some p \<and> p s = Inr y \<and> encodeElem env y = Some s"
  by (simp add: parseScalar_def)

lemma canonical_Bool:
  assumes "canonical env reflect_Bool s"
  shows "\<exists>p y. parseScalar env reflect_Bool = Some p \<and> p s = Inr y \<and> encodeElem env y = Some s"
proof -
  have "s = ''true'' \<or> s = ''false''"
    using assms by (simp add: canonical_def)
  then show ?thesis
  proof
    assume "s = ''true''"
    then show ?thesis by (simp add: parseScalar_def ParseBool_def FormatBool_def)
  next
    assume "s = ''false''"
    then show ?thesis by (simp add: parseScalar_def ParseBool_def FormatBool_def)
  qed
qed

lemma canonical_Float32:
  assumes "canonical env reflect_Float32 s"
  shows "\<exists>p y. parseScalar env reflect_Float32 = Some p \<and> p s = Inr y \<and> encodeElem env y = Some s"
proof (cases "ParseFloat32 env s")
  case (Inl e)
  then show ?thesis
    using assms by (simp add: canonical_def signed_kind_def unsigned_kind_def)
next
  case (Inr w)
  then have "FormatFloat32 env w = s"
    using assms by (simp add: canonical_def signed_kind_def unsigned_kind_def)
  then show ?thesis using Inr by (simp add: parseScalar_def)
qed

lemma canonical_Float64:
  assumes "canonical env reflect_Float64 s"
  shows "\<exists>p y. parseScalar env reflect_Float64 = Some p \<and> p s = Inr y \<and> encodeElem env y = Some s"
proof (cases "ParseFloat64 env s")
  case (Inl e)
  then show ?thesis
    using assms by (simp add: canonical_def signed_kind_def unsigned_kind_def)
next
  case (Inr w)
  then have "FormatFloat64 env w = s"
    using assms by (simp add: canonical_def signed_kind_def unsigned_kind_def)
  then show ?thesis using Inr by (simp add: parseScalar_def)
qed

lemma canonical_parse:
  assumes "scalar_kind k" and "canonical env k s"
  shows "\<exists>p y. parseScalar env k = Some p \<and> p s = Inr y \<and> encodeElem env y = Some s"
  using assms canonical_signed [of k env s] canonical_unsigned [of k env s]
    canonical_String [of env s] canonical_Bool [of env s]
    canonical_Float32 [of env s] canonical_Float64 [of env s]
  unfolding scalar_kind_def numeric_kind_def by blast


lemma getName_untagged:
  "Tag f = [] \<Longrightarrow> Name f \<noteq> [] \<Longrightarrow> getName env f = Return (default_name env f)"
  by (cases "Name f") (simp_all add: getName_def getNameTags_def default_name_def Lookup_def)

lemma getEncodingName_untagged:
  "Tag f = [] \<Longrightarrow> Name f \<noteq> [] \<Longrightarrow> default_name env f \<noteq> ''-'' \<Longrightarrow>
   getEncodingName env f y = Return (default_name env f, False)"
  by (cases "Name f") (simp_all add: getEncodingName_def getNameTags_def default_name_def Lookup_def)

lemma plain_scalar_field_kind:
  assumes "plain_scalar_field env f"
  shows "underlying (Type f) = Basic (Kind (Type f)) \<and> scalar_kind (Kind (Type f))"
proof -
  obtain k where k: "underlying (Type f) = Basic k" "scalar_kind k"
    using assms by (auto simp add: plain_scalar_field_def split: rtype.splits)
  have "Kind (Type f) = k"
    using Kind_underlying [of "Type f"] k(1) by simp
  then show ?thesis using k by simp
qed

lemma parseStructField_plain:
  assumes "plain_scalar_field env f" and "m (default_name env f) = Some [s]"
    and "canonical env (Kind (Type f)) s"
  shows "\<exists>y. parseStructField env m True f x = Return (y, None) \<and> encodeElem env y = Some s"
proof -
  have f: "IsExported f" "Tag f = []" "Name f \<noteq> []" "\<not> customDecodable env (Type f)"
    using assms(1) by (simp_all add: plain_scalar_field_def)
  have k: "underlying (Type f) = Basic (Kind (Type f))" "scalar_kind (Kind (Type f))"
    using plain_scalar_field_kind [OF assms(1)] by simp_all
  obtain p y where p: "parseScalar env (Kind (Type f)) = Some p" "p s = Inr y"
      "encodeElem env y = Some s"
    using canonical_parse [OF k(2) assms(3)] by blast
  have g: "Get m (default_name env f) = s # []"
    by (simp add: Get_def assms(2))
  have "parseStructField env m True f x = Return (y, None)"
    using parseStructField_scalar [OF f(1) f(4) getName_untagged [OF f(2,3)] g k(1) p(1), of x] p(2)
    by simp
  then show ?thesis using p(3) by blast
qed

lemma parseFields_plain:
  assumes "\<forall>f\<in>set fs. plain_scalar_field env f
             \<and> (\<exists>s. m (default_name env f) = Some [s] \<and> canonical env (Kind (Type f)) s)"
    and "length xs0 = length fs"
  shows "\<exists>ys. parseFields env m True (zip fs xs0) = Return (ys, [])
           \<and> list_all2 (\<lambda>f y. \<exists>s. m (default_name env f) = Some [s] \<and> encodeElem env y = Some s) fs ys"
  using assms
proof (induction fs arbitrary: xs0)
  case Nil
  then show ?case by simp
next
  case (Cons f fs)
  obtain x xs where xs0: "xs0 = x # xs" "length xs = length fs"
    using Cons.prems(2) by (cases xs0) auto
  obtain s where s: "m (default_name env f) = Some [s]" "canonical env (Kind (Type f)) s"
    and pf: "plain_scalar_field env f"
    using Cons.prems(1) by auto
  obtain y where y: "parseStructField env m True f x = Return (y, None)" "encodeElem env y = Some s"
    using parseStructField_plain [of env f m s x, OF pf s] by blast
  obtain ys where ys: "parseFields env m True (zip fs xs) = Return (ys, [])"
     "list_all2 (\<lambda>f y. \<exists>s. m (default_name env f) = Some [s] \<and> encodeElem env y = Some s) fs ys"
    using Cons.IH [of xs] Cons.prems(1) xs0(2) by auto
  have "parseFields env m True (zip (f # fs) xs0) = Return (y # ys, [])"
    by (simp add: xs0(1) y(1) ys(1))
  moreover have "list_all2 (\<lambda>f y. \<exists>s. m (default_name env f) = Some [s] \<and> encodeElem env y = Some s)
                   (f # fs) (y # ys)"
    using s(1) y(2) ys(2) by simp
  ultimately show ?case by blast
qed

lemma encodeFields_plain_step:
  assumes "plain_scalar_field env f" and "encodeElem env y = Some s"
  shows "encodeFields env v ((f, y) # rest) = encodeFields env (Add v (default_name env f) s) rest"
proof -
  have f: "IsExported f" "Tag f = []" "Name f \<noteq> []" "default_name env f \<noteq> ''-''"
     "\<not> customEncodable env (Type f)"
    using assms(1) by (simp_all add: plain_scalar_field_def)
  show ?thesis
    using f(1)
    by (simp add: encodeCustom_not_custom [OF f(5)] getEncodingName_untagged [OF f(2,3,4)]
          encodeField_scalar [OF assms(2)])
qed

lemma encodeFields_plain:
  assumes "list_all2 (\<lambda>f y. \<exists>s. m (default_name env f) = Some [s] \<and> encodeElem env y = Some s) fs ys"
    and "\<forall>f\<in>set fs. plain_scalar_field env f"
    and "distinct (map (default_name env) fs)"
    and "\<forall>f\<in>set fs. v (default_name env f) = None"
  shows "encodeFields env v (zip fs ys) =
           Return (\<lambda>k. if k \<in> default_name env ` set fs then m k else v k, None)"
  using assms
proof (induction fs ys arbitrary: v rule: list_all2_induct)
  case Nil
  show ?case by simp
next
  case (Cons f fs y ys)
  obtain s where s: "m (default_name env f) = Some [s]" "encodeElem env y = Some s"
    using Cons.hyps(1) by blast
  let ?n = "default_name env f"
  let ?v1 = "Add v ?n s"
  have pf: "plain_scalar_field env f" using Cons.prems(1) by simp
  have fresh: "?n \<notin> default_name env ` set fs" using Cons.prems(2) by simp
  have v1: "?v1 = v(?n \<mapsto> [s])"
    using Cons.prems(3) by (simp add: Add_def Get_def)
  have none: "\<forall>g\<in>set fs. ?v1 (default_name env g) = None"
  proof
    fix g
    assume g: "g \<in> set fs"
    then have "default_name env g \<noteq> ?n" using fresh by (metis imageI)
    then show "?v1 (default_name env g) = None"
      using Cons.prems(3) g by (simp add: v1)
  qed
  have "encodeFields env v (zip (f # fs) (y # ys)) = encodeFields env ?v1 (zip fs ys)"
    by (simp add: encodeFields_plain_step [OF pf s(2)] del: encodeFields.simps)
  also have "\<dots> = Return (\<lambda>k. if k \<in> default_name env ` set fs then m k else ?v1 k, None)"
    using Cons.IH [of ?v1] Cons.prems(1,2) none by simp
  also have "(\<lambda>k. if k \<in> default_name env ` set fs then m k else ?v1 k)
           = (\<lambda>k. if k \<in> default_name env ` set (f # fs) then m k else v k)"
    using fresh s(1) by (auto simp add: v1 fun_eq_iff)
  finally show ?case .
qed


text \<open>
  C1 (as amended). Let every field of a record type be visible, untagged and of a
  scalar type without custom capabilities, with pairwise distinct derived keys, and let
  the map bind exactly those keys, each to a one-element list holding a canonical string
  of the field's kind: the string form of the value it denotes. Then Decode into a
  record of that type succeeds without error, and Encode of the decoded record returns
  the original map.
\<close>

theorem Decode_then_Encode_round_trip:
  assumes "underlying st = StructOf fs"
    and "\<not> customDecodable env st" and "\<not> customEncodable env st"
    and "\<forall>f\<in>set fs. plain_scalar_field env f"
    and "distinct (map (default_name env) fs)"
    and "dom m = default_name env ` set fs"
    and "\<forall>f\<in>set fs. \<exists>s. m (default_name env f) = Some [s] \<and> canonical env (Kind (Type f)) s"
    and "length xs0 = length fs"
  shows "\<exists>xs. Decode env (Some m) (PointerTo st) (VPtr (Some (VStruct xs0)))
                = Return (VPtr (Some (VStruct xs)), None)
              \<and> Encode env (Some (st, VStruct xs)) = Return (m, None)"
proof -
  have kind: "Kind st = reflect_Struct"
    using Kind_underlying [of st] assms(1) by simp
  have fields: "Fields st = fs"
    using Fields_underlying [of st] assms(1) by simp
  obtain ys where ys: "parseFields env m True (zip fs xs0) = Return (ys, [])"
     "list_all2 (\<lambda>f y. \<exists>s. m (default_name env f) = Some [s] \<and> encodeElem env y = Some s) fs ys"
    using parseFields_plain [of fs env m xs0] assms(4,7,8) by blast
  have dec: "Decode env (Some m) (PointerTo st) (VPtr (Some (VStruct xs0)))
               = Return (VPtr (Some (VStruct ys)), None)"
    by (simp add: Decode_record [OF kind assms(2)] fields ys(1) Join_def)
  have "encodeFields env Map.empty (zip fs ys) =
          Return (\<lambda>k. if k \<in> default_name env ` set fs then m k else Map.empty k, None)"
    by (rule encodeFields_plain [OF ys(2) assms(4,5)]) simp
  moreover have "(\<lambda>k. if k \<in> default_name env ` set fs then m k else Map.empty k) = m"
  proof
    fix k
    show "(if k \<in> default_name env ` set fs then m k else Map.empty k) = m k"
    proof (cases "k \<in> default_name env ` set fs")
      case True
      then show ?thesis by simp
    next
      case False
      then have "k \<notin> dom m" using assms(6) by simp
      then show ?thesis using False by (simp add: domIff)
    qed
  qed
  ultimately have enc: "Encode env (Some (st, VStruct ys)) = Return (m, None)"
    by (simp add: Encode_def encode_struct [OF kind assms(3)] fields)
  show ?thesis using dec enc by blast
qed

theorem Decode_then_Encode_round_trip_witness:
  "\<exists>xs. Decode test_env
           (Some [''string'' \<mapsto> [''hello world''], ''bool'' \<mapsto> [''true''],
                  ''int8'' \<mapsto> [''-12''], ''uint16'' \<mapsto> [''65535'']])
           (PointerTo scalarsStruct) (VPtr (Some (VStruct [VString [], VBool False, VInt 0, VUint 0])))
         = Return (VPtr (Some (VStruct xs)), None)
       \<and> Encode test_env (Some (scalarsStruct, VStruct xs))
         = Return ([''string'' \<mapsto> [''hello world''], ''bool'' \<mapsto> [''true''],
                    ''int8'' \<mapsto> [''-12''], ''uint16'' \<mapsto> [''65535'']], None)"
proof -
  let ?fs = "[field ''String'' [] (Basic reflect_String), field ''Bool'' [] (Basic reflect_Bool),
              field ''Int8'' [] (Basic reflect_Int8), field ''Uint16'' [] (Basic reflect_Uint16)]"
  have names: "map (default_name test_env) ?fs = [''string'', ''bool'', ''int8'', ''uint16'']"
    by (simp add: default_name_def field_defs name_defs)
  have plain: "\<forall>f\<in>set ?fs. plain_scalar_field test_env f"
    using names
    by (simp add: plain_scalar_field_def field_defs scalar_kind_def numeric_kind_def signed_kind_def
          unsigned_kind_def customDecodable_def customEncodable_def)
  show ?thesis
  proof (rule Decode_then_Encode_round_trip [where fs = ?fs])
    show "underlying scalarsStruct = StructOf ?fs"
      by (simp add: scalarsStruct_def)
    show "\<not> customDecodable test_env scalarsStruct"
      by (simp add: scalarsStruct_def customDecodable_def test_env_def)
    show "\<not> customEncodable test_env scalarsStruct"
      by (simp add: scalarsStruct_def customEncodable_def test_env_def)
    show "\<forall>f\<in>set ?fs. plain_scalar_field test_env f"
      by (rule plain)
    show "distinct (map (default_name test_env) ?fs)"
      by (simp only: names) simp
    show "dom [''string'' \<mapsto> [''hello world''], ''bool'' \<mapsto> [''true''],
               ''int8'' \<mapsto> [''-12''], ''uint16'' \<mapsto> [''65535'']]
            = default_name test_env ` set ?fs"
      using names by (simp only: set_map [symmetric]) auto
    show "\<forall>f\<in>set ?fs. \<exists>s. [''string'' \<mapsto> [''hello world''], ''bool'' \<mapsto> [''true''],
               ''int8'' \<mapsto> [''-12''], ''uint16'' \<mapsto> [''65535'']] (default_name test_env f) = Some [s]
             \<and> canonical test_env (Kind (Type f)) s"
      using names
      by (simp add: field_defs canonical_def representable_def signed_kind_def unsigned_kind_def
            int_literal_def int_val_def decimal_def decimal_val_def strconv_defs char_of_def
            bit_Suc_0_iff)
    show "length [VString [], VBool False, VInt 0, VUint 0] = length ?fs"
      by simp
  qed
qed

text \<open>
  The claim as stated fails: \<open>+1\<close> is within the range of \<open>int\<close>, decodes to 1, and is
  encoded as \<open>1\<close>.
\<close>

theorem round_trip_changes_signed_literal:
  "Decode test_env (Some [''int'' \<mapsto> [''+1'']]) (PointerTo intStruct) (VPtr (Some (VStruct [VInt 0])))
     = Return (VPtr (Some (VStruct [VInt 1])), None)
   \<and> Encode test_env (Some (intStruct, VStruct [VInt 1])) = Return ([''int'' \<mapsto> [''1'']], None)
   \<and> Encode test_env (Some (intStruct, VStruct [VInt 1])) \<noteq> Return ([''int'' \<mapsto> [''+1'']], None)"
proof -
  have d: "Decode test_env (Some [''int'' \<mapsto> [''+1'']]) (PointerTo intStruct)
             (VPtr (Some (VStruct [VInt 0]))) = Return (VPtr (Some (VStruct [VInt 1])), None)"
    by (simp add: intStruct_def field_defs name_defs decode_defs strconv_defs parse.simps)
  have e: "Encode test_env (Some (intStruct, VStruct [VInt 1])) = Return ([''int'' \<mapsto> [''1'']], None)"
    by (simp add: intStruct_def field_defs name_defs encode_defs strconv_defs)
  have "[''int'' \<mapsto> [''1'']] ''int'' \<noteq> [''int'' \<mapsto> [''+1'']] ''int''"
    by simp
  then have n: "[''int'' \<mapsto> [''1'']] \<noteq> [''int'' \<mapsto> [''+1'']]"
    by metis
  show ?thesis using d e n by simp
qed

section \<open>Every integer has a canonical string\<close>

text \<open>
  The string form of an integer within the range of a kind is canonical at that kind:
  the canonical strings are exactly what the encoder writes.
\<close>

declare FormatUint.simps [simp del]

lemma digit_char_digit: "d < 10 \<Longrightarrow> is_digit (digit_char d) \<and> digit_val (digit_char d) = d"
  by (simp add: is_digit_def digit_val_def digit_char_def)

lemma decimal_val_snoc: "decimal_val (s @ [c]) = decimal_val s * 10 + digit_val c"
  by (simp add: decimal_val_def)

lemma FormatUint_decimal: "decimal (FormatUint n) \<and> decimal_val (FormatUint n) = n"
proof (induction n rule: FormatUint.induct)
  case (1 n)
  show ?case
  proof (cases "n < 10")
    case True
    then show ?thesis
      using digit_char_digit [of n]
      by (subst (1 2) FormatUint.simps) (simp add: decimal_def decimal_val_def)
  next
    case False
    have d: "is_digit (digit_char (n mod 10))" "digit_val (digit_char (n mod 10)) = n mod 10"
      using digit_char_digit [of "n mod 10"] by simp_all
    have IH: "decimal (FormatUint (n div 10))" "decimal_val (FormatUint (n div 10)) = n div 10"
      using 1 False by simp_all
    have eq: "FormatUint n = FormatUint (n div 10) @ [digit_char (n mod 10)]"
      using False by (subst FormatUint.simps) simp
    have "decimal (FormatUint n)"
      using IH(1) d(1) by (simp add: eq decimal_def)
    moreover have "decimal_val (FormatUint n) = n"
      by (simp add: eq decimal_val_snoc IH(2) d(2))
    ultimately show ?thesis by simp
  qed
qed

lemma FormatUint_no_sign: "hd (FormatUint n) \<noteq> CHR ''+'' \<and> hd (FormatUint n) \<noteq> CHR ''-''"
proof -
  have "decimal (FormatUint n)" using FormatUint_decimal by simp
  then have "is_digit (hd (FormatUint n))"
    by (cases "FormatUint n") (simp_all add: decimal_def)
  then show ?thesis by (auto simp add: is_digit_def)
qed

lemma FormatInt_literal: "int_literal (FormatInt i) \<and> int_val (FormatInt i) = i"
proof (cases "i < 0")
  case True
  then show ?thesis
    using FormatUint_decimal [of "nat (- i)"]
    by (simp add: FormatInt_def int_literal_def int_val_def)
next
  case False
  obtain c cs where f: "FormatUint (nat i) = c # cs"
    using FormatUint_decimal [of "nat i"] by (cases "FormatUint (nat i)") (auto simp add: decimal_def)
  have c: "c \<noteq> CHR ''+''" "c \<noteq> CHR ''-''"
    using FormatUint_no_sign [of "nat i"] f by simp_all
  show ?thesis
    using False FormatUint_decimal [of "nat i"] c
    by (simp add: FormatInt_def int_literal_def int_val_def f)
qed

lemma canonical_FormatInt:
  assumes "signed_kind k" and "- (2 ^ (Bits k - 1)) \<le> i" and "i < 2 ^ (Bits k - 1)"
  shows "canonical env k (FormatInt i)"
proof -
  have ns: "k \<noteq> reflect_String" "k \<noteq> reflect_Bool"
    using assms(1) by (auto simp add: signed_kind_def)
  show ?thesis
    using assms ns FormatInt_literal [of i]
    by (simp add: canonical_def representable_def)
qed

lemma canonical_FormatUint:
  assumes "unsigned_kind k" and "n < 2 ^ Bits k"
  shows "canonical env k (FormatUint n)"
proof -
  have ns: "k \<noteq> reflect_String" "k \<noteq> reflect_Bool" "\<not> signed_kind k"
    using assms(1) by (auto simp add: signed_kind_def unsigned_kind_def)
  show ?thesis
    using assms ns FormatUint_decimal [of n]
    by (simp add: canonical_def representable_def)
qed

section \<open>C7: omitempty\<close>
















end
